theory Spec2Isabelle
  imports Main "HOL-Library.Word" "HOL-Library.Sublist"
begin

section \<open>The volume driver of gce-docker (plugin/volume.go)\<close>

text \<open>
  A shallow embedding of \<^verbatim>\<open>src/plugin/volume.go\<close>: the eight operations of the
  driver (\<^verbatim>\<open>Create\<close>, \<^verbatim>\<open>List\<close>, \<^verbatim>\<open>Capabilities\<close>, \<^verbatim>\<open>Get\<close>, \<^verbatim>\<open>Remove\<close>, \<^verbatim>\<open>Path\<close>,
  \<^verbatim>\<open>Mount\<close>, \<^verbatim>\<open>Unmount\<close>), the derivation of a disk configuration from a request
  (\<^verbatim>\<open>createDiskConfig\<close>), the preparation of the mount point (\<^verbatim>\<open>createMountPoint\<close>)
  and the mapping of an error to a response (\<^verbatim>\<open>buildReponseError\<close>).

  The disk provider and the filesystem are Go interfaces held by the driver. They are
  modelled as records of state transformers over a world \<open>'w\<close> that the driver cannot
  inspect; every call the driver makes through them is appended, with the error it
  returned, to a trace. Calls to the logger are not modelled.
\<close>

subsection \<open>Errors\<close>

text \<open>
  A Go \<^verbatim>\<open>error\<close> is used by the driver in two ways only: through \<^verbatim>\<open>err.Error()\<close> and
  through \<^verbatim>\<open>os.IsNotExist(err)\<close>. The driver itself builds three kinds of error:
  \<^verbatim>\<open>fmt.Errorf("unknown option %q", key)\<close>, the \<^verbatim>\<open>*strconv.NumError\<close> of
  \<^verbatim>\<open>strconv.ParseInt\<close>, and
  \<^verbatim>\<open>fmt.Errorf("error the mountpoint %q already exists", target)\<close>. Every other error
  comes from a collaborator and is kept as its text together with what
  \<^verbatim>\<open>os.IsNotExist\<close> answers on it.
\<close>

datatype numErr = ErrSyntax | ErrRange

datatype error =
    UnknownOption string
  | NumError string numErr
  | MountpointExists string
  | Foreign bool string

fun IsNotExist :: "error option \<Rightarrow> bool" where
  "IsNotExist None = False"
| "IsNotExist (Some (Foreign b t)) = b"
| "IsNotExist (Some (UnknownOption k)) = False"
| "IsNotExist (Some (NumError n e)) = False"
| "IsNotExist (Some (MountpointExists t)) = False"

subsection \<open>Data\<close>

text \<open>
  \<^verbatim>\<open>providers.DiskConfig\<close>, with the fields \<^verbatim>\<open>createDiskConfig\<close> assigns; \<^verbatim>\<open>SizeGb\<close>
  receives the \<^verbatim>\<open>int64\<close> of \<^verbatim>\<open>strconv.ParseInt\<close>.
\<close>

record DiskConfig =
  dc_Name :: string
  dc_Type :: string
  dc_SizeGb :: "64 word"
  dc_SourceSnapshot :: string
  dc_SourceImage :: string

text \<open>
  \<^verbatim>\<open>volume.Request\<close>. \<^verbatim>\<open>Options\<close> is a Go map; the list gives its entries in the order
  in which a \<^verbatim>\<open>range\<close> over the map visits them, which Go leaves unspecified. The keys
  of a map are pairwise distinct.
\<close>

record Request =
  req_Name :: string
  Options :: "(string \<times> string) list"

text \<open>A disk as \<^verbatim>\<open>List\<close> and \<^verbatim>\<open>Get\<close> read it from the provider's listing.\<close>

record Disk =
  disk_Name :: string
  disk_Status :: string

text \<open>\<^verbatim>\<open>volume.Volume\<close>, \<^verbatim>\<open>volume.Capability\<close> and \<^verbatim>\<open>volume.Response\<close>.\<close>

record volume_Volume =
  vol_Name :: string
  vol_Mountpoint :: string

record Capability =
  Scope :: string

record Response =
  resp_Mountpoint :: string
  resp_Err :: string
  resp_Volumes :: "volume_Volume list"
  resp_Volume :: "volume_Volume option"
  resp_Capabilities :: Capability

text \<open>The zero value \<^verbatim>\<open>volume.Response{}\<close>.\<close>

definition Response_zero :: Response where
  "Response_zero =
     \<lparr>resp_Mountpoint = [], resp_Err = [], resp_Volumes = [], resp_Volume = None,
      resp_Capabilities = \<lparr>Scope = []\<rparr>\<rparr>"

subsection \<open>Functions whose code is outside the source file\<close>

text \<open>
  The methods \<^verbatim>\<open>Validate\<close>, \<^verbatim>\<open>MountPoint\<close> and \<^verbatim>\<open>Dev\<close> of \<^verbatim>\<open>providers.DiskConfig\<close> are
  called by the driver, but the package \<^verbatim>\<open>providers\<close> is not part of the sources at
  hand; the quoting of the verb \<^verbatim>\<open>%q\<close> (\<^verbatim>\<open>strconv.Quote\<close>) depends on the Unicode
  tables of the Go library. All four are parameters of the model: every theorem below
  holds for whatever they compute, unless it states an assumption on them.
\<close>

record Deps =
  Validate :: "DiskConfig \<Rightarrow> error option"
  MountPoint :: "DiskConfig \<Rightarrow> string \<Rightarrow> string"
  Dev :: "DiskConfig \<Rightarrow> string"
  Quote :: "string \<Rightarrow> string"

text \<open>
  Modelled from the spec: \<^verbatim>\<open>providers.DiskConfig.Validate\<close> is missing from the
  sources. The specification (4.1) says of it: "a structural validation step rejects
  configurations missing required data (minimally: non-empty \<^verbatim>\<open>Name\<close>)", the further
  rules being provider policy. The predicate states that minimum and nothing more.
\<close>

definition Validate_requires_Name :: "Deps \<Rightarrow> bool" where
  "Validate_requires_Name L = (\<forall>c. dc_Name c = [] \<longrightarrow> Validate L c \<noteq> None)"

text \<open>The method \<^verbatim>\<open>Error()\<close> of an error.\<close>

fun Error :: "Deps \<Rightarrow> error \<Rightarrow> string" where
  "Error L (UnknownOption key) = ''unknown option '' @ Quote L key"
| "Error L (NumError num e) =
     ''strconv.ParseInt: parsing '' @ Quote L num @ '': '' @
     (case e of ErrSyntax \<Rightarrow> ''invalid syntax'' | ErrRange \<Rightarrow> ''value out of range'')"
| "Error L (MountpointExists target) =
     ''error the mountpoint '' @ Quote L target @ '' already exists''"
| "Error L (Foreign b t) = t"

subsection \<open>strconv.ParseInt(value, 10, 64)\<close>

text \<open>
  The loop of \<^verbatim>\<open>strconv.ParseUint\<close> for base 10 and 64 bits, on the bytes of the
  string, with the accumulator as a natural number below \<open>2 ^ 64\<close>: a byte that is not
  a decimal digit is a syntax error; if the accumulator has reached the cutoff
  \<open>(2 ^ 64 - 1) div 10 + 1\<close> the multiplication would overflow, and if adding the digit
  passes \<open>2 ^ 64 - 1\<close> the addition would: both are range errors.
\<close>

definition isDigit :: "char \<Rightarrow> bool" where
  "isDigit c = ((48::nat) \<le> of_char c \<and> (of_char c :: nat) \<le> 57)"

definition digitVal :: "char \<Rightarrow> nat" where
  "digitVal c = of_char c - 48"

definition maxUint64 :: nat where
  "maxUint64 = 18446744073709551615"

fun ParseUint_loop :: "nat \<Rightarrow> string \<Rightarrow> numErr + nat" where
  "ParseUint_loop n [] = Inr n"
| "ParseUint_loop n (c # cs) =
     (if \<not> isDigit c then Inl ErrSyntax
      else if n \<ge> maxUint64 div 10 + 1 then Inl ErrRange
      else if n * 10 + digitVal c > maxUint64 then Inl ErrRange
      else ParseUint_loop (n * 10 + digitVal c) cs)"

definition ParseUint :: "string \<Rightarrow> numErr + nat" where
  "ParseUint s = (if s = [] then Inl ErrSyntax else ParseUint_loop 0 s)"

text \<open>
  \<^verbatim>\<open>strconv.ParseInt\<close>: the empty string is a syntax error; one leading \<^verbatim>\<open>+\<close> or \<^verbatim>\<open>-\<close>
  is taken off; a syntax error of \<^verbatim>\<open>ParseUint\<close> is returned, a range error of
  \<^verbatim>\<open>ParseUint\<close> comes with the value \<open>2 ^ 64 - 1\<close> and fails the range test that
  follows; the magnitude must be below \<open>2 ^ 63\<close>, or at most \<open>2 ^ 63\<close> after a minus
  sign. The result is \<^verbatim>\<open>int64(un)\<close>, negated after a minus sign. The error carries the
  whole input string.
\<close>

definition ParseInt :: "string \<Rightarrow> error + 64 word" where
  "ParseInt s =
     (if s = [] then Inl (NumError s ErrSyntax)
      else
        let neg = (hd s = CHR ''-'');
            s1 = (if hd s = CHR ''+'' \<or> hd s = CHR ''-'' then tl s else s)
        in case ParseUint s1 of
             Inl ErrSyntax \<Rightarrow> Inl (NumError s ErrSyntax)
           | Inl ErrRange \<Rightarrow> Inl (NumError s ErrRange)
           | Inr un \<Rightarrow>
               if \<not> neg \<and> un \<ge> 2 ^ 63 then Inl (NumError s ErrRange)
               else if neg \<and> un > 2 ^ 63 then Inl (NumError s ErrRange)
               else Inr (if neg then - (word_of_nat un) else word_of_nat un))"

subsection \<open>createDiskConfig\<close>

text \<open>
  The \<^verbatim>\<open>range\<close> loop over the options, on the entries still to visit. An unparsable
  \<^verbatim>\<open>SizeGb\<close> and an unknown key return at once.
\<close>

fun createDiskConfig_loop :: "DiskConfig \<Rightarrow> (string \<times> string) list \<Rightarrow> error + DiskConfig" where
  "createDiskConfig_loop config [] = Inr config"
| "createDiskConfig_loop config ((key, val) # rest) =
     (if key = ''Name'' then createDiskConfig_loop (config\<lparr>dc_Name := val\<rparr>) rest
      else if key = ''Type'' then createDiskConfig_loop (config\<lparr>dc_Type := val\<rparr>) rest
      else if key = ''SizeGb'' then
        (case ParseInt val of
           Inl err \<Rightarrow> Inl err
         | Inr n \<Rightarrow> createDiskConfig_loop (config\<lparr>dc_SizeGb := n\<rparr>) rest)
      else if key = ''SourceSnapshot'' then
        createDiskConfig_loop (config\<lparr>dc_SourceSnapshot := val\<rparr>) rest
      else if key = ''SourceImage'' then
        createDiskConfig_loop (config\<lparr>dc_SourceImage := val\<rparr>) rest
      else Inl (UnknownOption key))"

text \<open>\<^verbatim>\<open>&providers.DiskConfig{Name: r.Name}\<close>: every other field has its zero value.\<close>

definition DiskConfig_named :: "string \<Rightarrow> DiskConfig" where
  "DiskConfig_named name =
     \<lparr>dc_Name = name, dc_Type = [], dc_SizeGb = 0, dc_SourceSnapshot = [],
      dc_SourceImage = []\<rparr>"

text \<open>
  \<^verbatim>\<open>createDiskConfig\<close> returns \<^verbatim>\<open>config, config.Validate()\<close>; every caller looks at the
  error first and uses the configuration only when there is none.
\<close>

definition createDiskConfig :: "Deps \<Rightarrow> Request \<Rightarrow> error + DiskConfig" where
  "createDiskConfig L r =
     (case createDiskConfig_loop (DiskConfig_named (req_Name r)) (Options r) of
        Inl err \<Rightarrow> Inl err
      | Inr config \<Rightarrow>
          (case Validate L config of
             Some err \<Rightarrow> Inl err
           | None \<Rightarrow> Inr config))"

text \<open>\<^verbatim>\<open>buildReponseError\<close>: \<^verbatim>\<open>volume.Response{Err: err.Error()}\<close>.\<close>

definition buildReponseError :: "Deps \<Rightarrow> error \<Rightarrow> Response" where
  "buildReponseError L err = Response_zero\<lparr>resp_Err := Error L err\<rparr>"

subsection \<open>The collaborators and the trace of calls\<close>

text \<open>
  The interface \<^verbatim>\<open>providers.DiskProvider\<close> as the driver calls it. \<^verbatim>\<open>List\<close> returns the
  disks and an error.
\<close>

record 'w DiskProvider =
  p_Create :: "DiskConfig \<Rightarrow> 'w \<Rightarrow> error option \<times> 'w"
  p_List :: "'w \<Rightarrow> (Disk list \<times> error option) \<times> 'w"
  p_Attach :: "DiskConfig \<Rightarrow> 'w \<Rightarrow> error option \<times> 'w"
  p_Detach :: "DiskConfig \<Rightarrow> 'w \<Rightarrow> error option \<times> 'w"
  p_Delete :: "DiskConfig \<Rightarrow> 'w \<Rightarrow> error option \<times> 'w"

text \<open>
  The interface \<^verbatim>\<open>Filesystem\<close> as the driver calls it. Of the \<^verbatim>\<open>os.FileInfo\<close> that
  \<^verbatim>\<open>Stat\<close> returns the driver reads \<^verbatim>\<open>IsDir()\<close> only.
\<close>

record 'w Filesystem =
  fs_Stat :: "string \<Rightarrow> 'w \<Rightarrow> (bool \<times> error option) \<times> 'w"
  fs_MkdirAll :: "string \<Rightarrow> nat \<Rightarrow> 'w \<Rightarrow> error option \<times> 'w"
  fs_Format :: "string \<Rightarrow> 'w \<Rightarrow> error option \<times> 'w"
  fs_Mount :: "string \<Rightarrow> string \<Rightarrow> 'w \<Rightarrow> error option \<times> 'w"
  fs_Unmount :: "string \<Rightarrow> 'w \<Rightarrow> error option \<times> 'w"

text \<open>The struct \<^verbatim>\<open>Volume\<close>.\<close>

record 'w Volume =
  Root :: string
  p :: "'w DiskProvider"
  fs :: "'w Filesystem"

datatype call =
    PCreate DiskConfig
  | PList
  | PAttach DiskConfig
  | PDetach DiskConfig
  | PDelete DiskConfig
  | FStat string
  | FMkdirAll string nat
  | FFormat string
  | FMount string string
  | FUnmount string

fun is_provider_call :: "call \<Rightarrow> bool" where
  "is_provider_call (PCreate c) = True"
| "is_provider_call PList = True"
| "is_provider_call (PAttach c) = True"
| "is_provider_call (PDetach c) = True"
| "is_provider_call (PDelete c) = True"
| "is_provider_call (FStat t) = False"
| "is_provider_call (FMkdirAll t m) = False"
| "is_provider_call (FFormat d) = False"
| "is_provider_call (FMount d t) = False"
| "is_provider_call (FUnmount t) = False"

text \<open>
  The state an operation runs in: the world of the collaborators, and the calls made so
  far, each with the error it returned.
\<close>

record 'w state =
  world :: 'w
  trace :: "(call \<times> error option) list"

definition v_p_Create :: "'w Volume \<Rightarrow> DiskConfig \<Rightarrow> 'w state \<Rightarrow> error option \<times> 'w state" where
  "v_p_Create v c s =
     (case p_Create (p v) c (world s) of
        (err, w) \<Rightarrow> (err, \<lparr>world = w, trace = trace s @ [(PCreate c, err)]\<rparr>))"

definition v_p_List :: "'w Volume \<Rightarrow> 'w state \<Rightarrow> (Disk list \<times> error option) \<times> 'w state" where
  "v_p_List v s =
     (case p_List (p v) (world s) of
        ((disks, err), w) \<Rightarrow>
          ((disks, err), \<lparr>world = w, trace = trace s @ [(PList, err)]\<rparr>))"

definition v_p_Attach :: "'w Volume \<Rightarrow> DiskConfig \<Rightarrow> 'w state \<Rightarrow> error option \<times> 'w state" where
  "v_p_Attach v c s =
     (case p_Attach (p v) c (world s) of
        (err, w) \<Rightarrow> (err, \<lparr>world = w, trace = trace s @ [(PAttach c, err)]\<rparr>))"

definition v_p_Detach :: "'w Volume \<Rightarrow> DiskConfig \<Rightarrow> 'w state \<Rightarrow> error option \<times> 'w state" where
  "v_p_Detach v c s =
     (case p_Detach (p v) c (world s) of
        (err, w) \<Rightarrow> (err, \<lparr>world = w, trace = trace s @ [(PDetach c, err)]\<rparr>))"

definition v_p_Delete :: "'w Volume \<Rightarrow> DiskConfig \<Rightarrow> 'w state \<Rightarrow> error option \<times> 'w state" where
  "v_p_Delete v c s =
     (case p_Delete (p v) c (world s) of
        (err, w) \<Rightarrow> (err, \<lparr>world = w, trace = trace s @ [(PDelete c, err)]\<rparr>))"

definition v_fs_Stat :: "'w Volume \<Rightarrow> string \<Rightarrow> 'w state \<Rightarrow> (bool \<times> error option) \<times> 'w state" where
  "v_fs_Stat v target s =
     (case fs_Stat (fs v) target (world s) of
        ((isDir, err), w) \<Rightarrow>
          ((isDir, err), \<lparr>world = w, trace = trace s @ [(FStat target, err)]\<rparr>))"

definition v_fs_MkdirAll :: "'w Volume \<Rightarrow> string \<Rightarrow> nat \<Rightarrow> 'w state \<Rightarrow> error option \<times> 'w state" where
  "v_fs_MkdirAll v target mode s =
     (case fs_MkdirAll (fs v) target mode (world s) of
        (err, w) \<Rightarrow> (err, \<lparr>world = w, trace = trace s @ [(FMkdirAll target mode, err)]\<rparr>))"

definition v_fs_Format :: "'w Volume \<Rightarrow> string \<Rightarrow> 'w state \<Rightarrow> error option \<times> 'w state" where
  "v_fs_Format v dev s =
     (case fs_Format (fs v) dev (world s) of
        (err, w) \<Rightarrow> (err, \<lparr>world = w, trace = trace s @ [(FFormat dev, err)]\<rparr>))"

definition v_fs_Mount :: "'w Volume \<Rightarrow> string \<Rightarrow> string \<Rightarrow> 'w state \<Rightarrow> error option \<times> 'w state" where
  "v_fs_Mount v dev target s =
     (case fs_Mount (fs v) dev target (world s) of
        (err, w) \<Rightarrow> (err, \<lparr>world = w, trace = trace s @ [(FMount dev target, err)]\<rparr>))"

definition v_fs_Unmount :: "'w Volume \<Rightarrow> string \<Rightarrow> 'w state \<Rightarrow> error option \<times> 'w state" where
  "v_fs_Unmount v target s =
     (case fs_Unmount (fs v) target (world s) of
        (err, w) \<Rightarrow> (err, \<lparr>world = w, trace = trace s @ [(FUnmount target, err)]\<rparr>))"

subsection \<open>The operations\<close>

definition Create :: "Deps \<Rightarrow> 'w Volume \<Rightarrow> Request \<Rightarrow> 'w state \<Rightarrow> Response \<times> 'w state" where
  "Create L v r s =
     (case createDiskConfig L r of
        Inl err \<Rightarrow> (buildReponseError L err, s)
      | Inr config \<Rightarrow>
          (case v_p_Create v config s of
             (Some err, s1) \<Rightarrow> (buildReponseError L err, s1)
           | (None, s1) \<Rightarrow> (Response_zero, s1)))"

text \<open>
  The loop of \<^verbatim>\<open>List\<close>: a disk whose status is not \<^verbatim>\<open>"READY"\<close> is skipped, the others
  are appended, by name, to the volumes of the response.
\<close>

fun List_loop :: "Disk list \<Rightarrow> Response \<Rightarrow> Response" where
  "List_loop [] r = r"
| "List_loop (d # disks) r =
     (if disk_Status d \<noteq> ''READY'' then List_loop disks r
      else List_loop disks
             (r\<lparr>resp_Volumes :=
                  resp_Volumes r @ [\<lparr>vol_Name = disk_Name d, vol_Mountpoint = []\<rparr>]\<rparr>))"

text \<open>The request of \<^verbatim>\<open>List\<close> and of \<^verbatim>\<open>Capabilities\<close> is an unnamed parameter.\<close>

definition List :: "Deps \<Rightarrow> 'w Volume \<Rightarrow> Request \<Rightarrow> 'w state \<Rightarrow> Response \<times> 'w state" where
  "List L v r s =
     (case v_p_List v s of
        ((disks, Some err), s1) \<Rightarrow> (buildReponseError L err, s1)
      | ((disks, None), s1) \<Rightarrow> (List_loop disks Response_zero, s1))"

definition Capabilities :: "Deps \<Rightarrow> 'w Volume \<Rightarrow> Request \<Rightarrow> 'w state \<Rightarrow> Response \<times> 'w state" where
  "Capabilities L v r s = (Response_zero\<lparr>resp_Capabilities := \<lparr>Scope = ''local''\<rparr>\<rparr>, s)"

text \<open>
  The loop of \<^verbatim>\<open>Get\<close>: for every listed disk with the name of the request the
  configuration is derived again; an error there returns at once, otherwise the volume of
  the response is set. Every derivation ranges over the options anew; here each visits
  them in the order of the list, which loses nothing, since the first derivation that
  fails ends the loop and one that succeeds gives the same configuration in every order
  (\<open>createDiskConfig_order\<close> below).
\<close>

fun Get_loop :: "Deps \<Rightarrow> 'w Volume \<Rightarrow> Request \<Rightarrow> Disk list \<Rightarrow> Response \<Rightarrow> Response" where
  "Get_loop L v r [] resp = resp"
| "Get_loop L v r (d # disks) resp =
     (if disk_Name d \<noteq> req_Name r then Get_loop L v r disks resp
      else
        (case createDiskConfig L r of
           Inl err \<Rightarrow> buildReponseError L err
         | Inr config \<Rightarrow>
             Get_loop L v r disks
               (resp\<lparr>resp_Volume :=
                  Some \<lparr>vol_Name = disk_Name d,
                        vol_Mountpoint = MountPoint L config (Root v)\<rparr>\<rparr>)))"

definition Get :: "Deps \<Rightarrow> 'w Volume \<Rightarrow> Request \<Rightarrow> 'w state \<Rightarrow> Response \<times> 'w state" where
  "Get L v r s =
     (case v_p_List v s of
        ((disks, Some err), s1) \<Rightarrow> (buildReponseError L err, s1)
      | ((disks, None), s1) \<Rightarrow> (Get_loop L v r disks Response_zero, s1))"

definition Remove :: "Deps \<Rightarrow> 'w Volume \<Rightarrow> Request \<Rightarrow> 'w state \<Rightarrow> Response \<times> 'w state" where
  "Remove L v r s =
     (case createDiskConfig L r of
        Inl err \<Rightarrow> (buildReponseError L err, s)
      | Inr config \<Rightarrow>
          (case v_p_Delete v config s of
             (Some err, s1) \<Rightarrow> (buildReponseError L err, s1)
           | (None, s1) \<Rightarrow> (Response_zero, s1)))"

text \<open>
  \<^verbatim>\<open>createMountPoint\<close>. The mode \<^verbatim>\<open>0755\<close> is octal, 493. \<^verbatim>\<open>os.IsNotExist\<close> is asked
  first, also on a nil error, where it answers no.
\<close>

definition createMountPoint :: "Deps \<Rightarrow> 'w Volume \<Rightarrow> DiskConfig \<Rightarrow> 'w state \<Rightarrow> error option \<times> 'w state" where
  "createMountPoint L v c s =
     (let target = MountPoint L c (Root v) in
      case v_fs_Stat v target s of
        ((isDir, err), s1) \<Rightarrow>
          if IsNotExist err then v_fs_MkdirAll v target 493 s1
          else
            (case err of
               Some e \<Rightarrow> (Some e, s1)
             | None \<Rightarrow>
                 if \<not> isDir then (Some (MountpointExists target), s1)
                 else (None, s1)))"

definition Path :: "Deps \<Rightarrow> 'w Volume \<Rightarrow> Request \<Rightarrow> 'w state \<Rightarrow> Response \<times> 'w state" where
  "Path L v r s =
     (case createDiskConfig L r of
        Inl err \<Rightarrow> (buildReponseError L err, s)
      | Inr config \<Rightarrow>
          (let mnt = MountPoint L config (Root v) in
           case createMountPoint L v config s of
             (Some err, s1) \<Rightarrow> (buildReponseError L err, s1)
           | (None, s1) \<Rightarrow> (Response_zero\<lparr>resp_Mountpoint := mnt\<rparr>, s1)))"

definition Mount :: "Deps \<Rightarrow> 'w Volume \<Rightarrow> Request \<Rightarrow> 'w state \<Rightarrow> Response \<times> 'w state" where
  "Mount L v r s =
     (case createDiskConfig L r of
        Inl err \<Rightarrow> (buildReponseError L err, s)
      | Inr config \<Rightarrow>
          (case createMountPoint L v config s of
             (Some err, s1) \<Rightarrow> (buildReponseError L err, s1)
           | (None, s1) \<Rightarrow>
               (case v_p_Attach v config s1 of
                  (Some err, s2) \<Rightarrow> (buildReponseError L err, s2)
                | (None, s2) \<Rightarrow>
                    (case v_fs_Format v (Dev L config) s2 of
                       (Some err, s3) \<Rightarrow> (buildReponseError L err, s3)
                     | (None, s3) \<Rightarrow>
                         (case v_fs_Mount v (Dev L config) (MountPoint L config (Root v)) s3 of
                            (Some err, s4) \<Rightarrow> (buildReponseError L err, s4)
                          | (None, s4) \<Rightarrow>
                              (Response_zero
                                 \<lparr>resp_Mountpoint := MountPoint L config (Root v)\<rparr>, s4))))))"

definition Unmount :: "Deps \<Rightarrow> 'w Volume \<Rightarrow> Request \<Rightarrow> 'w state \<Rightarrow> Response \<times> 'w state" where
  "Unmount L v r s =
     (case createDiskConfig L r of
        Inl err \<Rightarrow> (buildReponseError L err, s)
      | Inr config \<Rightarrow>
          (case v_fs_Unmount v (MountPoint L config (Root v)) s of
             (Some err, s1) \<Rightarrow> (buildReponseError L err, s1)
           | (None, s1) \<Rightarrow>
               (case v_p_Detach v config s1 of
                  (Some err, s2) \<Rightarrow> (buildReponseError L err, s2)
                | (None, s2) \<Rightarrow> (Response_zero, s2))))"

subsection \<open>Notions used in the statements\<close>

text \<open>The five option keys that the \<^verbatim>\<open>switch\<close> of \<^verbatim>\<open>createDiskConfig\<close> has a case for.\<close>

definition known_option :: "string \<Rightarrow> bool" where
  "known_option key =
     (key = ''Name'' \<or> key = ''Type'' \<or> key = ''SizeGb'' \<or> key = ''SourceSnapshot'' \<or>
      key = ''SourceImage'')"

text \<open>
  The errors that the loop over the options can end in: the unknown-option error for a
  key of the request that is not one of the five, or the error of \<^verbatim>\<open>strconv.ParseInt\<close>
  on the value that the request gives for \<^verbatim>\<open>SizeGb\<close>.
\<close>

fun config_error :: "(string \<times> string) list \<Rightarrow> error \<Rightarrow> bool" where
  "config_error opts (UnknownOption key) = (key \<in> fst ` set opts \<and> \<not> known_option key)"
| "config_error opts (NumError num e) =
     ((''SizeGb'', num) \<in> set opts \<and> ParseInt num = Inl (NumError num e))"
| "config_error opts (MountpointExists t) = False"
| "config_error opts (Foreign b t) = False"

text \<open>
  A decimal numeral as the specification means it by "a valid base-10 integer": an
  optional sign followed by at least one decimal digit.
\<close>

definition is_base10_integer :: "string \<Rightarrow> bool" where
  "is_base10_integer s =
     (case s of
        [] \<Rightarrow> False
      | c # cs \<Rightarrow>
          (let ds = (if c = CHR ''+'' \<or> c = CHR ''-'' then cs else s)
           in ds \<noteq> [] \<and> list_all isDigit ds))"

text \<open>
  The number that a string of decimal digits denotes, and the integer that a decimal
  numeral with an optional sign denotes.
\<close>

definition decimal :: "string \<Rightarrow> nat" where
  "decimal ds = foldl (\<lambda>n c. n * 10 + digitVal c) 0 ds"

definition int_value :: "string \<Rightarrow> int" where
  "int_value s =
     (case s of
        [] \<Rightarrow> 0
      | c # cs \<Rightarrow>
          if c = CHR ''-'' then - int (decimal cs)
          else if c = CHR ''+'' then int (decimal cs)
          else int (decimal s))"

text \<open>The volume that \<^verbatim>\<open>List\<close> reports for a disk.\<close>

definition volume_of :: "Disk \<Rightarrow> volume_Volume" where
  "volume_of d = \<lparr>vol_Name = disk_Name d, vol_Mountpoint = []\<rparr>"

subsection \<open>A concrete driver, for evaluating the operations\<close>

text \<open>
  Collaborators that answer from a table and change nothing: the table holds the
  listing of the provider and the answers of \<^verbatim>\<open>Stat\<close>, \<^verbatim>\<open>Attach\<close> and \<^verbatim>\<open>Unmount\<close>;
  every other call succeeds.
\<close>

record table =
  t_disks :: "Disk list"
  t_stat :: "bool \<times> error option"
  t_attach :: "error option"
  t_unmount :: "error option"

definition table_provider :: "table DiskProvider" where
  "table_provider =
     \<lparr>p_Create = (\<lambda>c w. (None, w)),
      p_List = (\<lambda>w. ((t_disks w, None), w)),
      p_Attach = (\<lambda>c w. (t_attach w, w)),
      p_Detach = (\<lambda>c w. (None, w)),
      p_Delete = (\<lambda>c w. (None, w))\<rparr>"

definition table_fs :: "table Filesystem" where
  "table_fs =
     \<lparr>fs_Stat = (\<lambda>target w. (t_stat w, w)),
      fs_MkdirAll = (\<lambda>target mode w. (None, w)),
      fs_Format = (\<lambda>dev w. (None, w)),
      fs_Mount = (\<lambda>dev target w. (None, w)),
      fs_Unmount = (\<lambda>target w. (t_unmount w, w))\<rparr>"

definition table_Volume :: "table Volume" where
  "table_Volume = \<lparr>Root = ''/mnt/'', p = table_provider, fs = table_fs\<rparr>"

text \<open>
  One choice of the functions that are parameters: \<^verbatim>\<open>Validate\<close> asks for a name and
  nothing else, the paths are concatenations, the quoting adds the quotation marks.
\<close>

definition plain_Deps :: Deps where
  "plain_Deps =
     \<lparr>Validate = (\<lambda>c. if dc_Name c = [] then Some (Foreign False ''missing name'') else None),
      MountPoint = (\<lambda>c root. root @ dc_Name c),
      Dev = (\<lambda>c. ''/dev/disk/'' @ dc_Name c),
      Quote = (\<lambda>s. [CHR 0x22] @ s @ [CHR 0x22])\<rparr>"

text \<open>A world where the mount point is a directory and every call succeeds.\<close>

definition calm :: table where
  "calm =
     \<lparr>t_disks = [\<lparr>disk_Name = ''A'', disk_Status = ''READY''\<rparr>,
                 \<lparr>disk_Name = ''B'', disk_Status = ''PENDING''\<rparr>],
      t_stat = (True, None), t_attach = None, t_unmount = None\<rparr>"

definition start :: "table \<Rightarrow> table state" where
  "start w = \<lparr>world = w, trace = []\<rparr>"

text \<open>A world where \<^verbatim>\<open>Attach\<close> fails, one where \<^verbatim>\<open>Unmount\<close> fails, one where the
  mount point is a regular file, and one where it does not exist.\<close>

definition busy :: table where
  "busy = calm\<lparr>t_attach := Some (Foreign False ''disk busy'')\<rparr>"

definition stuck :: table where
  "stuck = calm\<lparr>t_unmount := Some (Foreign False ''target is busy'')\<rparr>"

definition regular_file :: table where
  "regular_file = calm\<lparr>t_stat := (False, None)\<rparr>"

definition absent :: table where
  "absent = calm\<lparr>t_stat := (False, Some (Foreign True ''no such file or directory''))\<rparr>"

subsection \<open>The upward interface\<close>

text \<open>
  The eight operations by name, as the transport layer calls them, and the response
  that carries an error's text and nothing else.
\<close>

datatype operation =
  OpCreate | OpList | OpCapabilities | OpGet | OpRemove | OpPath | OpMount | OpUnmount

fun run :: "operation \<Rightarrow> Deps \<Rightarrow> 'w Volume \<Rightarrow> Request \<Rightarrow> 'w state \<Rightarrow> Response \<times> 'w state" where
  "run OpCreate = Create"
| "run OpList = List"
| "run OpCapabilities = Capabilities"
| "run OpGet = Get"
| "run OpRemove = Remove"
| "run OpPath = Path"
| "run OpMount = Mount"
| "run OpUnmount = Unmount"

fun derives_first :: "operation \<Rightarrow> bool" where
  "derives_first OpCreate = True"
| "derives_first OpRemove = True"
| "derives_first OpPath = True"
| "derives_first OpMount = True"
| "derives_first OpUnmount = True"
| "derives_first OpList = False"
| "derives_first OpCapabilities = False"
| "derives_first OpGet = False"

definition error_response :: "Deps \<Rightarrow> error \<Rightarrow> Response" where
  "error_response L e =
     \<lparr>resp_Mountpoint = [], resp_Err = Error L e, resp_Volumes = [], resp_Volume = None,
      resp_Capabilities = \<lparr>Scope = []\<rparr>\<rparr>"

section \<open>Properties\<close>

subsection \<open>Unfolding the definitions\<close>

lemmas call_defs =
  v_p_Create_def v_p_List_def v_p_Attach_def v_p_Detach_def v_p_Delete_def
  v_fs_Stat_def v_fs_MkdirAll_def v_fs_Format_def v_fs_Mount_def v_fs_Unmount_def

lemmas table_defs =
  table_provider_def table_fs_def table_Volume_def plain_Deps_def calm_def start_def
  busy_def stuck_def regular_file_def absent_def

lemmas config_defs =
  createDiskConfig_def DiskConfig_named_def ParseInt_def ParseUint_def isDigit_def
  digitVal_def maxUint64_def

text \<open>What \<^verbatim>\<open>buildReponseError\<close> builds, field by field.\<close>

lemma buildReponseError_eq: "buildReponseError L e = error_response L e"
  by (simp add: buildReponseError_def error_response_def Response_zero_def)

subsection \<open>The derivation of the configuration\<close>

lemma ParseInt_error_shape: "ParseInt s = Inl e \<Longrightarrow> \<exists>ne. e = NumError s ne"
  by (auto simp: ParseInt_def Let_def split: if_splits sum.splits numErr.splits)

lemma config_error_Cons: "config_error opts e \<Longrightarrow> config_error (kv # opts) e"
  by (cases e) auto

lemma loop_Inl_config_error:
  "createDiskConfig_loop c opts = Inl e \<Longrightarrow> config_error opts e"
proof (induction c opts rule: createDiskConfig_loop.induct)
  case (1 config)
  then show ?case by simp
next
  case (2 config key val rest)
  show ?case
  proof (cases "known_option key")
    case False
    with "2.prems" have "e = UnknownOption key"
      by (simp add: known_option_def)
    with False show ?thesis by simp
  next
    case True
    show ?thesis
    proof (cases "key = ''SizeGb'' \<and> (\<exists>err. ParseInt val = Inl err)")
      case True
      then obtain err where k: "key = ''SizeGb''" and p: "ParseInt val = Inl err" by blast
      with "2.prems" have "e = err" by simp
      moreover from p obtain ne where "err = NumError val ne"
        using ParseInt_error_shape by blast
      ultimately show ?thesis using k p by simp
    next
      case False
      with True "2.prems" "2.IH" have "config_error rest e"
        by (auto simp: known_option_def split: if_splits sum.splits)
      then show ?thesis by (rule config_error_Cons)
    qed
  qed
qed

lemma loop_unknown_fails:
  "(key, val) \<in> set opts \<Longrightarrow> \<not> known_option key \<Longrightarrow> \<exists>e. createDiskConfig_loop c opts = Inl e"
proof (induction opts arbitrary: c)
  case Nil
  then show ?case by simp
next
  case (Cons kv opts)
  obtain k w where kv: "kv = (k, w)" by (cases kv)
  show ?case
  proof (cases "kv = (key, val)")
    case True
    with Cons.prems kv show ?thesis by (simp add: known_option_def)
  next
    case False
    with Cons.prems have "(key, val) \<in> set opts" by simp
    from Cons.IH [OF this Cons.prems(2)] show ?thesis
      unfolding kv by (simp split: sum.splits)
  qed
qed

lemma createDiskConfig_unknown:
  assumes "(key, val) \<in> set (Options r)" and "\<not> known_option key"
  shows "\<exists>e. createDiskConfig L r = Inl e \<and> config_error (Options r) e"
proof -
  from loop_unknown_fails [OF assms] obtain e
    where e: "createDiskConfig_loop (DiskConfig_named (req_Name r)) (Options r) = Inl e"
    by blast
  then have "config_error (Options r) e" by (rule loop_Inl_config_error)
  with e show ?thesis by (simp add: createDiskConfig_def)
qed

lemma Get_loop_match_error:
  "createDiskConfig L r = Inl e \<Longrightarrow> req_Name r \<in> disk_Name ` set disks \<Longrightarrow>
   Get_loop L v r disks resp = buildReponseError L e"
  by (induction disks arbitrary: resp) auto

lemma Get_loop_no_match:
  "req_Name r \<notin> disk_Name ` set disks \<Longrightarrow> Get_loop L v r disks resp = resp"
  by (induction disks arbitrary: resp) auto

lemma Get_loop_match_ok:
  "createDiskConfig L r = Inr c \<Longrightarrow> req_Name r \<in> disk_Name ` set disks \<Longrightarrow>
   Get_loop L v r disks resp =
     resp\<lparr>resp_Volume := Some \<lparr>vol_Name = req_Name r, vol_Mountpoint = MountPoint L c (Root v)\<rparr>\<rparr>"
proof (induction disks arbitrary: resp)
  case Nil
  then show ?case by simp
next
  case (Cons d disks)
  show ?case
  proof (cases "req_Name r \<in> disk_Name ` set disks")
    case True
    with Cons show ?thesis by simp
  next
    case False
    with Cons.prems have "disk_Name d = req_Name r" by auto
    with False Cons.prems(1) show ?thesis by (simp add: Get_loop_no_match)
  qed
qed

subsection \<open>C1: a request with an unknown option key\<close>

text \<open>
  Claim C1, as amended. The claim is stated for every operation and promises the
  unknown-option error; the driver differs on both counts, as evaluated further down.
  What holds: if the options of a request hold a key other than \<^verbatim>\<open>Name\<close>,
  \<^verbatim>\<open>Type\<close>, \<^verbatim>\<open>SizeGb\<close>, \<^verbatim>\<open>SourceSnapshot\<close> and \<^verbatim>\<open>SourceImage\<close>, then the derivation of
  the configuration fails, in whatever order the options are visited, with a
  configuration error \<open>e\<close>: the unknown-option error of an unknown key of the request,
  or the parse error of the request's \<^verbatim>\<open>SizeGb\<close> value when that value is unparsable
  and is visited first; it is an unknown-option error whenever every \<^verbatim>\<open>SizeGb\<close> value
  of the request parses. \<^verbatim>\<open>Create\<close>, \<^verbatim>\<open>Remove\<close>, \<^verbatim>\<open>Path\<close>, \<^verbatim>\<open>Mount\<close> and \<^verbatim>\<open>Unmount\<close>
  then return the response of \<open>e\<close> and leave the state as it was: no call is made to
  the provider or to the filesystem. \<^verbatim>\<open>Get\<close> lists the disks of the provider first, and
  returns the response of \<open>e\<close> when the listing succeeds and holds a disk with the name
  of the request, after that one call.
\<close>

theorem unknown_option_rejected:
  assumes "(key, val) \<in> set (Options r)" and "\<not> known_option key"
  shows "\<exists>e. config_error (Options r) e \<and>
           ((\<forall>num. (''SizeGb'', num) \<in> set (Options r) \<longrightarrow> (\<exists>n. ParseInt num = Inr n)) \<longrightarrow>
              (\<exists>k. e = UnknownOption k)) \<and>
           createDiskConfig L r = Inl e \<and>
           Create L v r s = (error_response L e, s) \<and>
           Remove L v r s = (error_response L e, s) \<and>
           Path L v r s = (error_response L e, s) \<and>
           Mount L v r s = (error_response L e, s) \<and>
           Unmount L v r s = (error_response L e, s) \<and>
           (\<forall>disks w. p_List (p v) (world s) = ((disks, None), w) \<and>
                       req_Name r \<in> disk_Name ` set disks \<longrightarrow>
              Get L v r s =
                (error_response L e, \<lparr>world = w, trace = trace s @ [(PList, None)]\<rparr>))"
proof -
  from createDiskConfig_unknown [OF assms] obtain e
    where e: "createDiskConfig L r = Inl e" and c: "config_error (Options r) e"
    by blast
  have "Create L v r s = (error_response L e, s)" using e by (simp add: Create_def buildReponseError_eq)
  moreover have "Remove L v r s = (error_response L e, s)" using e by (simp add: Remove_def buildReponseError_eq)
  moreover have "Path L v r s = (error_response L e, s)" using e by (simp add: Path_def buildReponseError_eq)
  moreover have "Mount L v r s = (error_response L e, s)" using e by (simp add: Mount_def buildReponseError_eq)
  moreover have "Unmount L v r s = (error_response L e, s)" using e by (simp add: Unmount_def buildReponseError_eq)
  moreover have "\<forall>disks w. p_List (p v) (world s) = ((disks, None), w) \<and>
                       req_Name r \<in> disk_Name ` set disks \<longrightarrow>
              Get L v r s =
                (error_response L e, \<lparr>world = w, trace = trace s @ [(PList, None)]\<rparr>)"
    using e by (simp add: Get_def v_p_List_def Get_loop_match_error buildReponseError_eq)
  moreover have "(\<forall>num. (''SizeGb'', num) \<in> set (Options r) \<longrightarrow> (\<exists>n. ParseInt num = Inr n)) \<longrightarrow>
              (\<exists>k. e = UnknownOption k)"
    using c by (cases e) auto
  ultimately show ?thesis using e c by blast
qed

text \<open>The theorem at a request with the one option \<^verbatim>\<open>foo\<close>.\<close>

theorem unknown_option_rejected_witness:
  "(''foo'', ''bar'') \<in> set (Options \<lparr>req_Name = ''A'', Options = [(''foo'', ''bar'')]\<rparr>) \<and>
   \<not> known_option ''foo'' \<and>
   (\<exists>e. config_error [(''foo'', ''bar'')] e \<and>
        Mount plain_Deps table_Volume \<lparr>req_Name = ''A'', Options = [(''foo'', ''bar'')]\<rparr>
          (start calm) = (error_response plain_Deps e, start calm))"
proof -
  have h1: "(''foo'', ''bar'') \<in> set (Options \<lparr>req_Name = ''A'', Options = [(''foo'', ''bar'')]\<rparr>)"
    by simp
  have h2: "\<not> known_option ''foo''"
    by (simp add: known_option_def)
  from unknown_option_rejected [OF h1 h2, of plain_Deps table_Volume "start calm"]
  show ?thesis using h2 by auto
qed

text \<open>
  Where C1 as stated fails, for the unknown key \<^verbatim>\<open>foo\<close>: \<^verbatim>\<open>List\<close> calls the provider
  and returns its ready disk, \<^verbatim>\<open>Capabilities\<close> returns its descriptor, \<^verbatim>\<open>Get\<close> calls
  the provider and, when no disk has the name of the request, returns the empty
  response; and when an unparsable \<^verbatim>\<open>SizeGb\<close> is visited before \<^verbatim>\<open>foo\<close>, the error of
  \<^verbatim>\<open>Create\<close> is the parse error, whose text is not that of the unknown-option error.
\<close>

theorem unknown_option_counterexample:
  "\<not> known_option ''foo'' \<and>
   List plain_Deps table_Volume \<lparr>req_Name = ''A'', Options = [(''foo'', ''bar'')]\<rparr> (start calm) =
     (Response_zero\<lparr>resp_Volumes := [\<lparr>vol_Name = ''A'', vol_Mountpoint = []\<rparr>]\<rparr>,
      \<lparr>world = calm, trace = [(PList, None)]\<rparr>) \<and>
   Capabilities plain_Deps table_Volume \<lparr>req_Name = ''A'', Options = [(''foo'', ''bar'')]\<rparr>
     (start calm) =
     (Response_zero\<lparr>resp_Capabilities := \<lparr>Scope = ''local''\<rparr>\<rparr>, start calm) \<and>
   Get plain_Deps table_Volume \<lparr>req_Name = ''Z'', Options = [(''foo'', ''bar'')]\<rparr> (start calm) =
     (Response_zero, \<lparr>world = calm, trace = [(PList, None)]\<rparr>) \<and>
   Get plain_Deps table_Volume \<lparr>req_Name = ''A'', Options = [(''foo'', ''bar'')]\<rparr> (start calm) =
     (error_response plain_Deps (UnknownOption ''foo''),
      \<lparr>world = calm, trace = [(PList, None)]\<rparr>) \<and>
   Create plain_Deps table_Volume
     \<lparr>req_Name = ''A'', Options = [(''SizeGb'', ''abc''), (''foo'', ''bar'')]\<rparr> (start calm) =
     (error_response plain_Deps (NumError ''abc'' ErrSyntax), start calm) \<and>
   resp_Err (error_response plain_Deps (NumError ''abc'' ErrSyntax)) \<noteq>
     resp_Err (error_response plain_Deps (UnknownOption ''foo''))"
  by (simp add: known_option_def List_def Capabilities_def Get_def Create_def call_defs
      table_defs config_defs buildReponseError_eq error_response_def Response_zero_def)

subsection \<open>The mount point and the calls of Mount\<close>

lemma createMountPoint_unfold:
  assumes "fs_Stat (fs v) (MountPoint L c (Root v)) (world s) = ((isDir, err), w)"
  shows "createMountPoint L v c s =
     (if IsNotExist err then
        (case fs_MkdirAll (fs v) (MountPoint L c (Root v)) 493 w of
           (e2, w2) \<Rightarrow>
             (e2, \<lparr>world = w2,
                   trace = trace s @ [(FStat (MountPoint L c (Root v)), err),
                                      (FMkdirAll (MountPoint L c (Root v)) 493, e2)]\<rparr>))
      else if err \<noteq> None then
        (err, \<lparr>world = w, trace = trace s @ [(FStat (MountPoint L c (Root v)), err)]\<rparr>)
      else if \<not> isDir then
        (Some (MountpointExists (MountPoint L c (Root v))),
         \<lparr>world = w, trace = trace s @ [(FStat (MountPoint L c (Root v)), None)]\<rparr>)
      else
        (None, \<lparr>world = w, trace = trace s @ [(FStat (MountPoint L c (Root v)), None)]\<rparr>))"
  using assms
  by (auto simp: createMountPoint_def v_fs_Stat_def v_fs_MkdirAll_def Let_def
      split: prod.splits option.splits)

lemma createMountPoint_trace:
  assumes "createMountPoint L v c s = (res, s1)"
  shows "\<exists>ens. trace s1 = trace s @ ens \<and>
           (map fst ens = [FStat (MountPoint L c (Root v))] \<or>
            map fst ens = [FStat (MountPoint L c (Root v)),
                           FMkdirAll (MountPoint L c (Root v)) 493]) \<and>
           (\<forall>call e. (call, Some e) \<in> set ens \<longrightarrow>
              (\<exists>t. call = FStat t \<and> IsNotExist (Some e)) \<or> res = Some e)"
proof -
  obtain isDir err w where st: "fs_Stat (fs v) (MountPoint L c (Root v)) (world s) = ((isDir, err), w)"
    by (metis surj_pair)
  show ?thesis
    using assms unfolding createMountPoint_unfold [OF st]
    by (auto split: if_splits prod.splits)
qed

lemma Mount_tail:
  assumes "createDiskConfig L r = Inr c" and "createMountPoint L v c s = (None, s1)"
    and "Mount L v r s = (resp, s')"
  shows "\<exists>tl. trace s' = trace s1 @ tl \<and>
           prefix (map fst tl)
             [PAttach c, FFormat (Dev L c), FMount (Dev L c) (MountPoint L c (Root v))] \<and>
           ((map fst tl =
               [PAttach c, FFormat (Dev L c), FMount (Dev L c) (MountPoint L c (Root v))] \<and>
             resp = Response_zero\<lparr>resp_Mountpoint := MountPoint L c (Root v)\<rparr>) \<or>
            (\<exists>e. resp = buildReponseError L e)) \<and>
           (\<forall>call e. (call, Some e) \<in> set tl \<longrightarrow> resp = buildReponseError L e) \<and>
           (\<forall>e. (PAttach c, Some e) \<in> set tl \<longrightarrow> map fst tl = [PAttach c])"
  using assms
  by (auto simp: Mount_def v_p_Attach_def v_fs_Format_def v_fs_Mount_def
      split: prod.splits option.splits)

subsection \<open>C2: the order of the calls of Mount\<close>

text \<open>
  Claim C2. When the configuration of the request is derived, \<^verbatim>\<open>Mount\<close> begins with the
  mount-point step, whose calls are \<^verbatim>\<open>Stat\<close> on the mount path, followed by \<^verbatim>\<open>MkdirAll\<close>
  on it or not. If that step returns an error, the response is the response of that
  error and no further call is made. Otherwise \<^verbatim>\<open>Attach\<close> of the provider is called
  next, on the world that the step left. If \<^verbatim>\<open>Attach\<close> returns an error, the response
  is the response of that error, whose error field is the error's text, and the trace
  ends with that call: \<^verbatim>\<open>Format\<close> and \<^verbatim>\<open>Mount\<close> of the filesystem are not called.
  Otherwise \<^verbatim>\<open>Format\<close> is called on the device, on the world that \<^verbatim>\<open>Attach\<close> left, and
  its error ends the operation in the same way. Otherwise \<^verbatim>\<open>Mount\<close> of the filesystem
  is called with the device and the mount path, on the world that \<^verbatim>\<open>Format\<close> left; its
  error is the response, and without one the response is the mount path. The equation
  gives the response, the world and the trace in each of these cases.
\<close>

theorem Mount_order:
  assumes "createDiskConfig L r = Inr c" and "createMountPoint L v c s = (res, s1)"
  shows "(\<exists>ens. trace s1 = trace s @ ens \<and>
            (map fst ens = [FStat (MountPoint L c (Root v))] \<or>
             map fst ens = [FStat (MountPoint L c (Root v)),
                            FMkdirAll (MountPoint L c (Root v)) 493])) \<and>
         Mount L v r s =
           (case res of
              Some e \<Rightarrow> (error_response L e, s1)
            | None \<Rightarrow>
                (case p_Attach (p v) c (world s1) of
                   (Some e, w2) \<Rightarrow>
                     (error_response L e,
                      \<lparr>world = w2, trace = trace s1 @ [(PAttach c, Some e)]\<rparr>)
                 | (None, w2) \<Rightarrow>
                     (case fs_Format (fs v) (Dev L c) w2 of
                        (Some e, w3) \<Rightarrow>
                          (error_response L e,
                           \<lparr>world = w3,
                            trace = trace s1 @ [(PAttach c, None),
                                                (FFormat (Dev L c), Some e)]\<rparr>)
                      | (None, w3) \<Rightarrow>
                          (case fs_Mount (fs v) (Dev L c) (MountPoint L c (Root v)) w3 of
                             (Some e, w4) \<Rightarrow>
                               (error_response L e,
                                \<lparr>world = w4,
                                 trace = trace s1 @
                                   [(PAttach c, None), (FFormat (Dev L c), None),
                                    (FMount (Dev L c) (MountPoint L c (Root v)), Some e)]\<rparr>)
                           | (None, w4) \<Rightarrow>
                               (Response_zero
                                  \<lparr>resp_Mountpoint := MountPoint L c (Root v)\<rparr>,
                                \<lparr>world = w4,
                                 trace = trace s1 @
                                   [(PAttach c, None), (FFormat (Dev L c), None),
                                    (FMount (Dev L c) (MountPoint L c (Root v)), None)]\<rparr>)))))"
proof (intro conjI)
  from createMountPoint_trace [OF assms(2)]
  show "\<exists>ens. trace s1 = trace s @ ens \<and>
            (map fst ens = [FStat (MountPoint L c (Root v))] \<or>
             map fst ens = [FStat (MountPoint L c (Root v)),
                            FMkdirAll (MountPoint L c (Root v)) 493])"
    by (elim exE conjE) (intro exI conjI)
next
  show "Mount L v r s =
           (case res of
              Some e \<Rightarrow> (error_response L e, s1)
            | None \<Rightarrow>
                (case p_Attach (p v) c (world s1) of
                   (Some e, w2) \<Rightarrow>
                     (error_response L e,
                      \<lparr>world = w2, trace = trace s1 @ [(PAttach c, Some e)]\<rparr>)
                 | (None, w2) \<Rightarrow>
                     (case fs_Format (fs v) (Dev L c) w2 of
                        (Some e, w3) \<Rightarrow>
                          (error_response L e,
                           \<lparr>world = w3,
                            trace = trace s1 @ [(PAttach c, None),
                                                (FFormat (Dev L c), Some e)]\<rparr>)
                      | (None, w3) \<Rightarrow>
                          (case fs_Mount (fs v) (Dev L c) (MountPoint L c (Root v)) w3 of
                             (Some e, w4) \<Rightarrow>
                               (error_response L e,
                                \<lparr>world = w4,
                                 trace = trace s1 @
                                   [(PAttach c, None), (FFormat (Dev L c), None),
                                    (FMount (Dev L c) (MountPoint L c (Root v)), Some e)]\<rparr>)
                           | (None, w4) \<Rightarrow>
                               (Response_zero
                                  \<lparr>resp_Mountpoint := MountPoint L c (Root v)\<rparr>,
                                \<lparr>world = w4,
                                 trace = trace s1 @
                                   [(PAttach c, None), (FFormat (Dev L c), None),
                                    (FMount (Dev L c) (MountPoint L c (Root v)), None)]\<rparr>)))))"
    using assms
    by (simp add: Mount_def v_p_Attach_def v_fs_Format_def v_fs_Mount_def
        buildReponseError_eq split: prod.splits option.splits)
qed

text \<open>
  The theorem where \<^verbatim>\<open>Attach\<close> fails with "disk busy", and where nothing fails and the
  mount point has to be created.
\<close>

theorem Mount_order_witness:
  "createDiskConfig plain_Deps \<lparr>req_Name = ''A'', Options = []\<rparr> = Inr (DiskConfig_named ''A'') \<and>
   createMountPoint plain_Deps table_Volume (DiskConfig_named ''A'') (start busy) =
     (None, \<lparr>world = busy, trace = [(FStat ''/mnt/A'', None)]\<rparr>) \<and>
   Mount plain_Deps table_Volume \<lparr>req_Name = ''A'', Options = []\<rparr> (start busy) =
     (\<lparr>resp_Mountpoint = [], resp_Err = ''disk busy'', resp_Volumes = [], resp_Volume = None,
       resp_Capabilities = \<lparr>Scope = []\<rparr>\<rparr>,
      \<lparr>world = busy,
       trace = [(FStat ''/mnt/A'', None),
                (PAttach (DiskConfig_named ''A''), Some (Foreign False ''disk busy''))]\<rparr>) \<and>
   createMountPoint plain_Deps table_Volume (DiskConfig_named ''A'') (start absent) =
     (None,
      \<lparr>world = absent,
       trace = [(FStat ''/mnt/A'', Some (Foreign True ''no such file or directory'')),
                (FMkdirAll ''/mnt/A'' 493, None)]\<rparr>) \<and>
   Mount plain_Deps table_Volume \<lparr>req_Name = ''A'', Options = []\<rparr> (start absent) =
     (Response_zero\<lparr>resp_Mountpoint := ''/mnt/A''\<rparr>,
      \<lparr>world = absent,
       trace = [(FStat ''/mnt/A'', Some (Foreign True ''no such file or directory'')),
                (FMkdirAll ''/mnt/A'' 493, None),
                (PAttach (DiskConfig_named ''A''), None),
                (FFormat ''/dev/disk/A'', None),
                (FMount ''/dev/disk/A'' ''/mnt/A'', None)]\<rparr>)"
proof -
  have h1: "createDiskConfig plain_Deps \<lparr>req_Name = ''A'', Options = []\<rparr> = Inr (DiskConfig_named ''A'')"
    by (simp add: config_defs table_defs)
  have h2: "createMountPoint plain_Deps table_Volume (DiskConfig_named ''A'') (start busy) =
     (None, \<lparr>world = busy, trace = [(FStat ''/mnt/A'', None)]\<rparr>)"
    by (simp add: createMountPoint_def Let_def call_defs table_defs DiskConfig_named_def)
  have h3: "Mount plain_Deps table_Volume \<lparr>req_Name = ''A'', Options = []\<rparr> (start busy) =
     (\<lparr>resp_Mountpoint = [], resp_Err = ''disk busy'', resp_Volumes = [], resp_Volume = None,
       resp_Capabilities = \<lparr>Scope = []\<rparr>\<rparr>,
      \<lparr>world = busy,
       trace = [(FStat ''/mnt/A'', None),
                (PAttach (DiskConfig_named ''A''), Some (Foreign False ''disk busy''))]\<rparr>)"
    using Mount_order [OF h1 h2]
    by (simp add: table_defs DiskConfig_named_def error_response_def)
  have h4: "createMountPoint plain_Deps table_Volume (DiskConfig_named ''A'') (start absent) =
     (None,
      \<lparr>world = absent,
       trace = [(FStat ''/mnt/A'', Some (Foreign True ''no such file or directory'')),
                (FMkdirAll ''/mnt/A'' 493, None)]\<rparr>)"
    by (simp add: createMountPoint_def Let_def call_defs table_defs DiskConfig_named_def)
  have h5: "Mount plain_Deps table_Volume \<lparr>req_Name = ''A'', Options = []\<rparr> (start absent) =
     (Response_zero\<lparr>resp_Mountpoint := ''/mnt/A''\<rparr>,
      \<lparr>world = absent,
       trace = [(FStat ''/mnt/A'', Some (Foreign True ''no such file or directory'')),
                (FMkdirAll ''/mnt/A'' 493, None),
                (PAttach (DiskConfig_named ''A''), None),
                (FFormat ''/dev/disk/A'', None),
                (FMount ''/dev/disk/A'' ''/mnt/A'', None)]\<rparr>)"
    using Mount_order [OF h1 h4]
    by (simp add: table_defs DiskConfig_named_def)
  from h1 h2 h3 h4 h5 show ?thesis
    by (intro conjI) assumption+
qed

subsection \<open>C3: the order of the calls of Unmount\<close>

text \<open>
  Claim C3. When the configuration of the request is derived, \<^verbatim>\<open>Unmount\<close> calls
  \<^verbatim>\<open>Unmount\<close> of the filesystem on the mount path of the configuration first. If that
  call returns an error, the response is the response of that error, the trace has
  grown by that one call and the world is the one that call left: \<^verbatim>\<open>Detach\<close> is not
  called. If it succeeds, \<^verbatim>\<open>Detach\<close> of the provider is called next, on the world that
  the unmounting left, and decides the response.
\<close>

theorem Unmount_order:
  assumes "createDiskConfig L r = Inr c"
    and "fs_Unmount (fs v) (MountPoint L c (Root v)) (world s) = (uerr, w1)"
  shows "Unmount L v r s =
     (case uerr of
        Some e \<Rightarrow>
          (error_response L e,
           \<lparr>world = w1, trace = trace s @ [(FUnmount (MountPoint L c (Root v)), Some e)]\<rparr>)
      | None \<Rightarrow>
          (case p_Detach (p v) c w1 of
             (derr, w2) \<Rightarrow>
               (case derr of Some e \<Rightarrow> error_response L e | None \<Rightarrow> Response_zero,
                \<lparr>world = w2,
                 trace = trace s @ [(FUnmount (MountPoint L c (Root v)), None),
                                    (PDetach c, derr)]\<rparr>)))"
  using assms
  by (simp add: Unmount_def v_fs_Unmount_def v_p_Detach_def buildReponseError_eq
      split: prod.splits option.splits)

text \<open>The theorem where the unmounting fails, and where it succeeds.\<close>

theorem Unmount_order_witness:
  "createDiskConfig plain_Deps \<lparr>req_Name = ''A'', Options = []\<rparr> = Inr (DiskConfig_named ''A'') \<and>
   fs_Unmount (fs table_Volume) (MountPoint plain_Deps (DiskConfig_named ''A'') (Root table_Volume))
     (world (start stuck)) = (Some (Foreign False ''target is busy''), stuck) \<and>
   Unmount plain_Deps table_Volume \<lparr>req_Name = ''A'', Options = []\<rparr> (start stuck) =
     (error_response plain_Deps (Foreign False ''target is busy''),
      \<lparr>world = stuck,
       trace = [(FUnmount ''/mnt/A'', Some (Foreign False ''target is busy''))]\<rparr>) \<and>
   Unmount plain_Deps table_Volume \<lparr>req_Name = ''A'', Options = []\<rparr> (start calm) =
     (Response_zero,
      \<lparr>world = calm,
       trace = [(FUnmount ''/mnt/A'', None), (PDetach (DiskConfig_named ''A''), None)]\<rparr>)"
proof -
  have h1: "createDiskConfig plain_Deps \<lparr>req_Name = ''A'', Options = []\<rparr> = Inr (DiskConfig_named ''A'')"
    by (simp add: config_defs table_defs)
  have h2: "fs_Unmount (fs table_Volume)
      (MountPoint plain_Deps (DiskConfig_named ''A'') (Root table_Volume))
      (world (start stuck)) = (Some (Foreign False ''target is busy''), stuck)"
    by (simp add: table_defs)
  have h3: "fs_Unmount (fs table_Volume)
      (MountPoint plain_Deps (DiskConfig_named ''A'') (Root table_Volume))
      (world (start calm)) = (None, calm)"
    by (simp add: table_defs)
  have h4: "Unmount plain_Deps table_Volume \<lparr>req_Name = ''A'', Options = []\<rparr> (start stuck) =
     (error_response plain_Deps (Foreign False ''target is busy''),
      \<lparr>world = stuck,
       trace = [(FUnmount ''/mnt/A'', Some (Foreign False ''target is busy''))]\<rparr>)"
    using Unmount_order [OF h1 h2]
    by (simp add: config_defs table_defs buildReponseError_def error_response_def
        Response_zero_def)
  have h5: "Unmount plain_Deps table_Volume \<lparr>req_Name = ''A'', Options = []\<rparr> (start calm) =
     (Response_zero,
      \<lparr>world = calm,
       trace = [(FUnmount ''/mnt/A'', None), (PDetach (DiskConfig_named ''A''), None)]\<rparr>)"
    using Unmount_order [OF h1 h3]
    by (simp add: config_defs table_defs buildReponseError_def error_response_def
        Response_zero_def)
  from h1 h2 h4 h5 show ?thesis
    by (intro conjI) assumption+
qed

subsection \<open>C6: the preparation of the mount point\<close>

lemma Path_trace:
  assumes "Path L v r s = (resp, s')"
  shows "\<exists>evs. trace s' = trace s @ evs \<and> (\<forall>ev \<in> set evs. \<not> is_provider_call (fst ev)) \<and>
           (\<forall>call e. (call, Some e) \<in> set evs \<longrightarrow>
              (\<exists>t. call = FStat t \<and> IsNotExist (Some e)) \<or> resp = buildReponseError L e)"
proof (cases "createDiskConfig L r")
  case (Inl e)
  with assms show ?thesis by (simp add: Path_def)
next
  case (Inr c)
  obtain res s1 where cm: "createMountPoint L v c s = (res, s1)"
    by (cases "createMountPoint L v c s")
  from createMountPoint_trace [OF cm] obtain ens
    where ens: "trace s1 = trace s @ ens"
      "map fst ens = [FStat (MountPoint L c (Root v))] \<or>
       map fst ens = [FStat (MountPoint L c (Root v)), FMkdirAll (MountPoint L c (Root v)) 493]"
      "\<forall>call e. (call, Some e) \<in> set ens \<longrightarrow>
              (\<exists>t. call = FStat t \<and> IsNotExist (Some e)) \<or> res = Some e"
    by (elim exE conjE) (rule that)
  from assms Inr cm have s': "s' = s1"
    and resp: "\<And>e. res = Some e \<Longrightarrow> resp = buildReponseError L e"
    by (auto simp: Path_def Let_def split: option.splits)
  from ens(2) have "\<forall>call \<in> set (map fst ens). \<not> is_provider_call call"
    by auto
  then have np: "\<forall>ev \<in> set ens. \<not> is_provider_call (fst ev)"
    by simp
  from ens(1,3) s' resp np show ?thesis
    by (intro exI [of _ ens]) auto
qed

text \<open>
  Claim C6. \<^verbatim>\<open>createMountPoint\<close> calls \<^verbatim>\<open>Stat\<close> on the mount path of the
  configuration and decides on its answer. If the answer is an error on which
  \<^verbatim>\<open>os.IsNotExist\<close> holds, \<^verbatim>\<open>MkdirAll\<close> is called on the same path with mode \<^verbatim>\<open>0755\<close>
  (493) and its result is the result. If \<^verbatim>\<open>Stat\<close> succeeds and the path is not a
  directory, the result is the conflict error that names the path. Any other error of
  \<^verbatim>\<open>Stat\<close> is the result, after that one call. If \<^verbatim>\<open>Stat\<close> succeeds on a directory
  there is no error. In particular \<^verbatim>\<open>Path\<close>, for a request whose configuration is
  derived and whose mount path is not a directory, returns the response of the conflict
  error after the one call of \<^verbatim>\<open>Stat\<close>; and no call that \<^verbatim>\<open>Path\<close> ever adds to the
  trace is a call of the provider.
\<close>

theorem createMountPoint_decision:
  assumes "fs_Stat (fs v) (MountPoint L c (Root v)) (world s) = ((isDir, err), w)"
  shows "(IsNotExist err \<longrightarrow>
            createMountPoint L v c s =
              (case fs_MkdirAll (fs v) (MountPoint L c (Root v)) 493 w of
                 (e2, w2) \<Rightarrow>
                   (e2, \<lparr>world = w2,
                         trace = trace s @ [(FStat (MountPoint L c (Root v)), err),
                                            (FMkdirAll (MountPoint L c (Root v)) 493, e2)]\<rparr>))) \<and>
         (err = None \<and> \<not> isDir \<longrightarrow>
            createMountPoint L v c s =
              (Some (MountpointExists (MountPoint L c (Root v))),
               \<lparr>world = w, trace = trace s @ [(FStat (MountPoint L c (Root v)), None)]\<rparr>)) \<and>
         (err \<noteq> None \<and> \<not> IsNotExist err \<longrightarrow>
            createMountPoint L v c s =
              (err, \<lparr>world = w, trace = trace s @ [(FStat (MountPoint L c (Root v)), err)]\<rparr>)) \<and>
         (err = None \<and> isDir \<longrightarrow>
            createMountPoint L v c s =
              (None, \<lparr>world = w, trace = trace s @ [(FStat (MountPoint L c (Root v)), None)]\<rparr>)) \<and>
         (createDiskConfig L r = Inr c \<and> err = None \<and> \<not> isDir \<longrightarrow>
            Path L v r s =
              (error_response L (MountpointExists (MountPoint L c (Root v))),
               \<lparr>world = w, trace = trace s @ [(FStat (MountPoint L c (Root v)), None)]\<rparr>)) \<and>
         (\<forall>ev \<in> set (drop (length (trace s)) (trace (snd (Path L v r s)))).
            \<not> is_provider_call (fst ev))"
proof -
  note u = createMountPoint_unfold [OF assms]
  have "\<forall>ev \<in> set (drop (length (trace s)) (trace (snd (Path L v r s)))).
            \<not> is_provider_call (fst ev)"
  proof -
    obtain resp s' where p: "Path L v r s = (resp, s')" by (cases "Path L v r s")
    from Path_trace [OF p] obtain evs where "trace s' = trace s @ evs"
      "\<forall>ev \<in> set evs. \<not> is_provider_call (fst ev)" by blast
    with p show ?thesis by simp
  qed
  moreover have "createDiskConfig L r = Inr c \<and> err = None \<and> \<not> isDir \<longrightarrow>
            Path L v r s =
              (error_response L (MountpointExists (MountPoint L c (Root v))),
               \<lparr>world = w, trace = trace s @ [(FStat (MountPoint L c (Root v)), None)]\<rparr>)"
    by (simp add: Path_def Let_def u buildReponseError_def error_response_def Response_zero_def)
  moreover note u
  ultimately show ?thesis
    by (intro conjI impI) (simp_all split: prod.splits)
qed

text \<open>The theorem where the mount path is a regular file.\<close>

theorem createMountPoint_decision_witness:
  "fs_Stat (fs table_Volume) (MountPoint plain_Deps (DiskConfig_named ''A'') (Root table_Volume))
     (world (start regular_file)) = ((False, None), regular_file) \<and>
   createDiskConfig plain_Deps \<lparr>req_Name = ''A'', Options = []\<rparr> = Inr (DiskConfig_named ''A'') \<and>
   Path plain_Deps table_Volume \<lparr>req_Name = ''A'', Options = []\<rparr> (start regular_file) =
     (error_response plain_Deps (MountpointExists ''/mnt/A''),
      \<lparr>world = regular_file, trace = [(FStat ''/mnt/A'', None)]\<rparr>)"
proof -
  have h1: "fs_Stat (fs table_Volume)
      (MountPoint plain_Deps (DiskConfig_named ''A'') (Root table_Volume))
      (world (start regular_file)) = ((False, None), regular_file)"
    by (simp add: table_defs)
  have h2: "createDiskConfig plain_Deps \<lparr>req_Name = ''A'', Options = []\<rparr> = Inr (DiskConfig_named ''A'')"
    by (simp add: config_defs table_defs)
  have h3: "Path plain_Deps table_Volume \<lparr>req_Name = ''A'', Options = []\<rparr> (start regular_file) =
     (error_response plain_Deps (MountpointExists ''/mnt/A''),
      \<lparr>world = regular_file, trace = [(FStat ''/mnt/A'', None)]\<rparr>)"
    using createMountPoint_decision [OF h1, of "\<lparr>req_Name = ''A'', Options = []\<rparr>"] h2
    by (simp add: table_defs DiskConfig_named_def)
  from h1 h2 h3 show ?thesis
    by (intro conjI) assumption+
qed

subsection \<open>C7: every error becomes a response that carries its text only\<close>

lemma List_loop_Err: "resp_Err (List_loop disks resp) = resp_Err resp"
  by (induction disks arbitrary: resp) auto

lemma Get_loop_shape:
  "(\<exists>e. Get_loop L v r disks resp = buildReponseError L e) \<or>
   resp_Err (Get_loop L v r disks resp) = resp_Err resp"
proof (induction disks arbitrary: resp)
  case Nil
  then show ?case by simp
next
  case (Cons d disks)
  show ?case
  proof (cases "disk_Name d \<noteq> req_Name r")
    case True
    with Cons.IH [of resp] show ?thesis by simp
  next
    case False
    show ?thesis
    proof (cases "createDiskConfig L r")
      case (Inl e)
      with False show ?thesis by auto
    next
      case (Inr c)
      with False
        Cons.IH [of "resp\<lparr>resp_Volume := Some \<lparr>vol_Name = disk_Name d,
                        vol_Mountpoint = MountPoint L c (Root v)\<rparr>\<rparr>"]
      show ?thesis by simp
    qed
  qed
qed

lemma Create_trace:
  assumes "Create L v r s = (resp, s')"
  shows "\<exists>evs. trace s' = trace s @ evs \<and>
           (\<forall>call e. (call, Some e) \<in> set evs \<longrightarrow> resp = buildReponseError L e) \<and>
           ((\<exists>e. resp = buildReponseError L e) \<or> resp_Err resp = [])"
  using assms
  by (auto simp: Create_def v_p_Create_def Response_zero_def split: sum.splits prod.splits option.splits)

lemma Remove_trace:
  assumes "Remove L v r s = (resp, s')"
  shows "\<exists>evs. trace s' = trace s @ evs \<and>
           (\<forall>call e. (call, Some e) \<in> set evs \<longrightarrow> resp = buildReponseError L e) \<and>
           ((\<exists>e. resp = buildReponseError L e) \<or> resp_Err resp = [])"
  using assms
  by (auto simp: Remove_def v_p_Delete_def Response_zero_def split: sum.splits prod.splits option.splits)

lemma List_trace:
  assumes "List L v r s = (resp, s')"
  shows "\<exists>evs. trace s' = trace s @ evs \<and>
           (\<forall>call e. (call, Some e) \<in> set evs \<longrightarrow> resp = buildReponseError L e) \<and>
           ((\<exists>e. resp = buildReponseError L e) \<or> resp_Err resp = [])"
  using assms
  by (auto simp: List_def v_p_List_def List_loop_Err Response_zero_def
      split: sum.splits prod.splits option.splits)

lemma Get_trace:
  assumes "Get L v r s = (resp, s')"
  shows "\<exists>evs. trace s' = trace s @ evs \<and>
           (\<forall>call e. (call, Some e) \<in> set evs \<longrightarrow> resp = buildReponseError L e) \<and>
           ((\<exists>e. resp = buildReponseError L e) \<or> resp_Err resp = [])"
  using assms Get_loop_shape [of L v r _ Response_zero]
  by (auto simp: Get_def v_p_List_def Response_zero_def
      split: sum.splits prod.splits option.splits)

lemma Unmount_trace:
  assumes "Unmount L v r s = (resp, s')"
  shows "\<exists>evs. trace s' = trace s @ evs \<and>
           (\<forall>call e. (call, Some e) \<in> set evs \<longrightarrow> resp = buildReponseError L e) \<and>
           ((\<exists>e. resp = buildReponseError L e) \<or> resp_Err resp = [])"
  using assms
  by (auto simp: Unmount_def v_fs_Unmount_def v_p_Detach_def Response_zero_def
      split: sum.splits prod.splits option.splits)

lemma Path_shape:
  "(\<exists>e. fst (Path L v r s) = buildReponseError L e) \<or> resp_Err (fst (Path L v r s)) = []"
  by (cases "createDiskConfig L r"; cases "createMountPoint L v (projr (createDiskConfig L r)) s")
     (auto simp: Path_def Let_def Response_zero_def split: option.splits)

lemma Mount_trace:
  assumes "Mount L v r s = (resp, s')"
  shows "\<exists>evs. trace s' = trace s @ evs \<and>
           (\<forall>call e. (call, Some e) \<in> set evs \<longrightarrow>
              (\<exists>t. call = FStat t \<and> IsNotExist (Some e)) \<or> resp = buildReponseError L e) \<and>
           ((\<exists>e. resp = buildReponseError L e) \<or> resp_Err resp = [])"
proof (cases "createDiskConfig L r")
  case (Inl e)
  with assms show ?thesis by (auto simp: Mount_def)
next
  case (Inr c)
  obtain res s1 where cm: "createMountPoint L v c s = (res, s1)"
    by (cases "createMountPoint L v c s")
  from createMountPoint_trace [OF cm] obtain ens
    where ens: "trace s1 = trace s @ ens"
      "\<forall>call e. (call, Some e) \<in> set ens \<longrightarrow>
              (\<exists>t. call = FStat t \<and> IsNotExist (Some e)) \<or> res = Some e"
    by (elim exE conjE) (rule that)
  show ?thesis
  proof (cases res)
    case (Some e)
    with assms Inr cm have "resp = buildReponseError L e" and "s' = s1"
      by (simp_all add: Mount_def)
    with ens Some show ?thesis
      by (intro exI [of _ ens]) auto
  next
    case None
    with cm have cm': "createMountPoint L v c s = (None, s1)" by simp
    from Mount_tail [OF Inr cm' assms] obtain tl
      where tl: "trace s' = trace s1 @ tl"
        "(map fst tl =
               [PAttach c, FFormat (Dev L c), FMount (Dev L c) (MountPoint L c (Root v))] \<and>
             resp = Response_zero\<lparr>resp_Mountpoint := MountPoint L c (Root v)\<rparr>) \<or>
            (\<exists>e. resp = buildReponseError L e)"
        "\<forall>call e. (call, Some e) \<in> set tl \<longrightarrow> resp = buildReponseError L e"
      by (elim exE conjE) (rule that)
    from tl(2) have shape: "(\<exists>e. resp = buildReponseError L e) \<or> resp_Err resp = []"
      by (auto simp: Response_zero_def)
    from tl(1) ens(1) have "trace s' = trace s @ (ens @ tl)" by simp
    moreover from ens(2) tl(3) None
    have "\<forall>call e. (call, Some e) \<in> set (ens @ tl) \<longrightarrow>
              (\<exists>t. call = FStat t \<and> IsNotExist (Some e)) \<or> resp = buildReponseError L e"
      by auto
    ultimately show ?thesis using shape by blast
  qed
qed

text \<open>
  Claim C7. Every operation is a total function of the request and the state, so it
  returns a response whatever the collaborators answer. For each of the eight
  operations: whenever a call of the provider or of the filesystem returns an error,
  the response is the one that carries the text of that error in its error field and
  leaves the mount point, the list of volumes, the volume and the capabilities
  unpopulated; the one answer of a call that is not an error of its step is the
  not-exist answer of \<^verbatim>\<open>Stat\<close>, which the mount-point step handles by creating the
  directory (C6). The same holds for the error of the derivation of the configuration,
  in the five operations that begin with it and in \<^verbatim>\<open>Get\<close> when it reaches it, and for
  the error of the mount-point step in \<^verbatim>\<open>Path\<close> and \<^verbatim>\<open>Mount\<close>, the conflict error
  included. Every response is either such an error response or has an empty error
  field.
\<close>

theorem errors_become_responses:
  assumes "run op L v r s = (resp, s')"
  shows "(\<exists>evs. trace s' = trace s @ evs \<and>
            (\<forall>call e. (call, Some e) \<in> set evs \<longrightarrow>
               (\<exists>t. call = FStat t \<and> IsNotExist (Some e)) \<or> resp = error_response L e)) \<and>
         (\<forall>e. derives_first op \<and> createDiskConfig L r = Inl e \<longrightarrow>
            resp = error_response L e) \<and>
         (\<forall>e disks w. op = OpGet \<and> p_List (p v) (world s) = ((disks, None), w) \<and>
            req_Name r \<in> disk_Name ` set disks \<and> createDiskConfig L r = Inl e \<longrightarrow>
            resp = error_response L e) \<and>
         (\<forall>c e s1. (op = OpPath \<or> op = OpMount) \<and> createDiskConfig L r = Inr c \<and>
            createMountPoint L v c s = (Some e, s1) \<longrightarrow>
            resp = error_response L e) \<and>
         ((\<exists>e. resp = error_response L e) \<or> resp_Err resp = [])"
proof -
  have calls: "\<exists>evs. trace s' = trace s @ evs \<and>
            (\<forall>call e. (call, Some e) \<in> set evs \<longrightarrow>
               (\<exists>t. call = FStat t \<and> IsNotExist (Some e)) \<or> resp = buildReponseError L e)"
  proof (cases op)
    case OpCreate
    with assms Create_trace [of L v r s resp s'] show ?thesis by auto
  next
    case OpList
    with assms List_trace [of L v r s resp s'] show ?thesis by auto
  next
    case OpCapabilities
    with assms show ?thesis by (simp add: Capabilities_def)
  next
    case OpGet
    with assms Get_trace [of L v r s resp s'] show ?thesis by auto
  next
    case OpRemove
    with assms Remove_trace [of L v r s resp s'] show ?thesis by auto
  next
    case OpPath
    with assms Path_trace [of L v r s resp s'] show ?thesis by auto
  next
    case OpMount
    with assms Mount_trace [of L v r s resp s'] show ?thesis by auto
  next
    case OpUnmount
    with assms Unmount_trace [of L v r s resp s'] show ?thesis by auto
  qed
  have shape: "(\<exists>e. resp = buildReponseError L e) \<or> resp_Err resp = []"
  proof (cases op)
    case OpCreate
    with assms Create_trace [of L v r s resp s'] show ?thesis by auto
  next
    case OpList
    with assms List_trace [of L v r s resp s'] show ?thesis by auto
  next
    case OpCapabilities
    with assms show ?thesis by (auto simp: Capabilities_def Response_zero_def)
  next
    case OpGet
    with assms Get_trace [of L v r s resp s'] show ?thesis by auto
  next
    case OpRemove
    with assms Remove_trace [of L v r s resp s'] show ?thesis by auto
  next
    case OpPath
    with assms Path_shape [of L v r s] show ?thesis by auto
  next
    case OpMount
    with assms Mount_trace [of L v r s resp s'] show ?thesis by auto
  next
    case OpUnmount
    with assms Unmount_trace [of L v r s resp s'] show ?thesis by auto
  qed
  have derive: "\<forall>e. derives_first op \<and> createDiskConfig L r = Inl e \<longrightarrow>
            resp = buildReponseError L e"
    using assms
    by (cases op) (auto simp: Create_def Remove_def Path_def Mount_def Unmount_def)
  have get: "\<forall>e disks w. op = OpGet \<and> p_List (p v) (world s) = ((disks, None), w) \<and>
            req_Name r \<in> disk_Name ` set disks \<and> createDiskConfig L r = Inl e \<longrightarrow>
            resp = buildReponseError L e"
    using assms
    by (auto simp: Get_def v_p_List_def Get_loop_match_error)
  have ensure: "\<forall>c e s1. (op = OpPath \<or> op = OpMount) \<and> createDiskConfig L r = Inr c \<and>
            createMountPoint L v c s = (Some e, s1) \<longrightarrow>
            resp = buildReponseError L e"
    using assms
    by (auto simp: Path_def Mount_def Let_def)
  from calls shape derive get ensure show ?thesis
    unfolding buildReponseError_eq by (intro conjI) assumption+
qed

text \<open>The theorem for \<^verbatim>\<open>Mount\<close> where \<^verbatim>\<open>Attach\<close> fails with "disk busy".\<close>

theorem errors_become_responses_witness:
  "run OpMount plain_Deps table_Volume \<lparr>req_Name = ''A'', Options = []\<rparr> (start busy) =
     (\<lparr>resp_Mountpoint = [], resp_Err = ''disk busy'', resp_Volumes = [], resp_Volume = None,
       resp_Capabilities = \<lparr>Scope = []\<rparr>\<rparr>,
      \<lparr>world = busy,
       trace = [(FStat ''/mnt/A'', None),
                (PAttach (DiskConfig_named ''A''), Some (Foreign False ''disk busy''))]\<rparr>) \<and>
   error_response plain_Deps (Foreign False ''disk busy'') =
     \<lparr>resp_Mountpoint = [], resp_Err = ''disk busy'', resp_Volumes = [], resp_Volume = None,
       resp_Capabilities = \<lparr>Scope = []\<rparr>\<rparr>"
proof -
  have h1: "run OpMount plain_Deps table_Volume \<lparr>req_Name = ''A'', Options = []\<rparr> (start busy) =
     (\<lparr>resp_Mountpoint = [], resp_Err = ''disk busy'', resp_Volumes = [], resp_Volume = None,
       resp_Capabilities = \<lparr>Scope = []\<rparr>\<rparr>,
      \<lparr>world = busy,
       trace = [(FStat ''/mnt/A'', None),
                (PAttach (DiskConfig_named ''A''), Some (Foreign False ''disk busy''))]\<rparr>)"
    by (simp add: Mount_def createMountPoint_def Let_def call_defs config_defs table_defs
        buildReponseError_def Response_zero_def)
  have h2: "error_response plain_Deps (Foreign False ''disk busy'') =
     \<lparr>resp_Mountpoint = [], resp_Err = ''disk busy'', resp_Volumes = [], resp_Volume = None,
       resp_Capabilities = \<lparr>Scope = []\<rparr>\<rparr>"
    by (simp add: error_response_def)
  from errors_become_responses [OF h1] h1 h2 show ?thesis
    by (intro conjI) assumption+
qed

subsection \<open>C4: List reports the ready disks\<close>

lemma List_loop_eq:
  "List_loop disks resp =
     resp\<lparr>resp_Volumes :=
            resp_Volumes resp @
            map volume_of (filter (\<lambda>d. disk_Status d = ''READY'') disks)\<rparr>"
  by (induction disks arbitrary: resp) (simp_all add: volume_of_def)

text \<open>
  Claim C4. When the provider returns a listing without an error, the volumes of the
  response of \<^verbatim>\<open>List\<close> are the disks of the listing whose status is \<^verbatim>\<open>READY\<close>, by name
  and in the order of the listing; a disk in any other status is left out; the rest of
  the response is empty.
\<close>

theorem List_ready_only:
  assumes "p_List (p v) (world s) = ((disks, None), w)"
  shows "List L v r s =
     (Response_zero
        \<lparr>resp_Volumes := map volume_of (filter (\<lambda>d. disk_Status d = ''READY'') disks)\<rparr>,
      \<lparr>world = w, trace = trace s @ [(PList, None)]\<rparr>)"
  using assms by (simp add: List_def v_p_List_def List_loop_eq Response_zero_def)

text \<open>The theorem on the disks \<^verbatim>\<open>A\<close>, ready, and \<^verbatim>\<open>B\<close>, pending: the volumes are \<^verbatim>\<open>[A]\<close>.\<close>

theorem List_ready_only_witness:
  "p_List (p table_Volume) (world (start calm)) =
     (([\<lparr>disk_Name = ''A'', disk_Status = ''READY''\<rparr>,
        \<lparr>disk_Name = ''B'', disk_Status = ''PENDING''\<rparr>], None), calm) \<and>
   resp_Volumes (fst (List plain_Deps table_Volume \<lparr>req_Name = [], Options = []\<rparr> (start calm))) =
     [\<lparr>vol_Name = ''A'', vol_Mountpoint = []\<rparr>]"
proof -
  have h1: "p_List (p table_Volume) (world (start calm)) =
     (([\<lparr>disk_Name = ''A'', disk_Status = ''READY''\<rparr>,
        \<lparr>disk_Name = ''B'', disk_Status = ''PENDING''\<rparr>], None), calm)"
    by (simp add: table_defs)
  have h2: "resp_Volumes (fst (List plain_Deps table_Volume \<lparr>req_Name = [], Options = []\<rparr> (start calm))) =
     [\<lparr>vol_Name = ''A'', vol_Mountpoint = []\<rparr>]"
    using List_ready_only [OF h1, of plain_Deps "\<lparr>req_Name = [], Options = []\<rparr>"]
    by (simp add: volume_of_def)
  from h1 h2 show ?thesis by (intro conjI) assumption+
qed

subsection \<open>C5: Get\<close>

text \<open>
  Claim C5. When the provider returns a listing without an error: if no disk of the
  listing has the name of the request, \<^verbatim>\<open>Get\<close> returns the empty response, with no
  volume and no error, whatever the options of the request are; if a disk has that name
  and the configuration of the request is derived, \<^verbatim>\<open>Get\<close> returns a volume with that
  name and the mount path of the derived configuration.
\<close>

theorem Get_found_or_empty:
  assumes "p_List (p v) (world s) = ((disks, None), w)"
  shows "(req_Name r \<notin> disk_Name ` set disks \<longrightarrow>
            Get L v r s = (Response_zero, \<lparr>world = w, trace = trace s @ [(PList, None)]\<rparr>)) \<and>
         (\<forall>c. req_Name r \<in> disk_Name ` set disks \<and> createDiskConfig L r = Inr c \<longrightarrow>
            Get L v r s =
              (Response_zero
                 \<lparr>resp_Volume :=
                    Some \<lparr>vol_Name = req_Name r, vol_Mountpoint = MountPoint L c (Root v)\<rparr>\<rparr>,
               \<lparr>world = w, trace = trace s @ [(PList, None)]\<rparr>))"
  using assms by (simp add: Get_def v_p_List_def Get_loop_no_match Get_loop_match_ok)

text \<open>
  The theorem for a name that is not listed, with an unknown option, and for a listed
  name, with an option that renames the disk.
\<close>

theorem Get_found_or_empty_witness:
  "p_List (p table_Volume) (world (start calm)) =
     (([\<lparr>disk_Name = ''A'', disk_Status = ''READY''\<rparr>,
        \<lparr>disk_Name = ''B'', disk_Status = ''PENDING''\<rparr>], None), calm) \<and>
   Get plain_Deps table_Volume \<lparr>req_Name = ''Z'', Options = [(''foo'', ''bar'')]\<rparr> (start calm) =
     (Response_zero, \<lparr>world = calm, trace = [(PList, None)]\<rparr>) \<and>
   Get plain_Deps table_Volume \<lparr>req_Name = ''B'', Options = [(''Name'', ''other'')]\<rparr> (start calm) =
     (Response_zero
        \<lparr>resp_Volume := Some \<lparr>vol_Name = ''B'', vol_Mountpoint = ''/mnt/other''\<rparr>\<rparr>,
      \<lparr>world = calm, trace = [(PList, None)]\<rparr>)"
proof -
  have h1: "p_List (p table_Volume) (world (start calm)) =
     (([\<lparr>disk_Name = ''A'', disk_Status = ''READY''\<rparr>,
        \<lparr>disk_Name = ''B'', disk_Status = ''PENDING''\<rparr>], None), calm)"
    by (simp add: table_defs)
  have c: "createDiskConfig plain_Deps \<lparr>req_Name = ''B'', Options = [(''Name'', ''other'')]\<rparr> =
      Inr (DiskConfig_named ''other'')"
    by (simp add: config_defs table_defs)
  have h2: "Get plain_Deps table_Volume \<lparr>req_Name = ''Z'', Options = [(''foo'', ''bar'')]\<rparr> (start calm) =
     (Response_zero, \<lparr>world = calm, trace = [(PList, None)]\<rparr>)"
    using Get_found_or_empty [OF h1, of "\<lparr>req_Name = ''Z'', Options = [(''foo'', ''bar'')]\<rparr>" plain_Deps]
    by (simp add: table_defs)
  have h3: "Get plain_Deps table_Volume \<lparr>req_Name = ''B'', Options = [(''Name'', ''other'')]\<rparr> (start calm) =
     (Response_zero
        \<lparr>resp_Volume := Some \<lparr>vol_Name = ''B'', vol_Mountpoint = ''/mnt/other''\<rparr>\<rparr>,
      \<lparr>world = calm, trace = [(PList, None)]\<rparr>)"
    using Get_found_or_empty [OF h1, of "\<lparr>req_Name = ''B'', Options = [(''Name'', ''other'')]\<rparr>" plain_Deps] c
    by (simp add: table_defs DiskConfig_named_def)
  from h1 h2 h3 show ?thesis by (intro conjI) assumption+
qed

subsection \<open>C10: List and Capabilities do not read the request\<close>

text \<open>
  Claim C10. \<^verbatim>\<open>List\<close> returns the same for any two requests: the outcome of the
  provider's listing, that is the response of the provider's error, or the ready disks.
  \<^verbatim>\<open>Capabilities\<close> returns the descriptor with the scope \<^verbatim>\<open>local\<close> for every request
  and makes no call. Neither derives a configuration, so no configuration error can
  come out of them.
\<close>

theorem List_Capabilities_ignore_request:
  "List L v r s = List L v r' s \<and>
   List L v r s =
     (case p_List (p v) (world s) of
        ((disks, err), w) \<Rightarrow>
          (case err of
             Some e \<Rightarrow> error_response L e
           | None \<Rightarrow>
               Response_zero
                 \<lparr>resp_Volumes :=
                    map volume_of (filter (\<lambda>d. disk_Status d = ''READY'') disks)\<rparr>,
           \<lparr>world = w, trace = trace s @ [(PList, err)]\<rparr>)) \<and>
   Capabilities L v r s = (Response_zero\<lparr>resp_Capabilities := \<lparr>Scope = ''local''\<rparr>\<rparr>, s)"
  by (simp add: List_def Capabilities_def v_p_List_def List_loop_eq Response_zero_def
      buildReponseError_eq split: prod.splits option.splits)

text \<open>
  Both operations on a request with an unknown key and an unparsable \<^verbatim>\<open>SizeGb\<close>.
\<close>

theorem List_Capabilities_ignore_request_witness:
  "List plain_Deps table_Volume
     \<lparr>req_Name = ''A'', Options = [(''SizeGb'', ''abc''), (''foo'', ''bar'')]\<rparr> (start calm) =
     (Response_zero\<lparr>resp_Volumes := [\<lparr>vol_Name = ''A'', vol_Mountpoint = []\<rparr>]\<rparr>,
      \<lparr>world = calm, trace = [(PList, None)]\<rparr>) \<and>
   Capabilities plain_Deps table_Volume
     \<lparr>req_Name = ''A'', Options = [(''SizeGb'', ''abc''), (''foo'', ''bar'')]\<rparr> (start calm) =
     (Response_zero\<lparr>resp_Capabilities := \<lparr>Scope = ''local''\<rparr>\<rparr>, start calm)"
  using List_Capabilities_ignore_request
    [of plain_Deps table_Volume
      "\<lparr>req_Name = ''A'', Options = [(''SizeGb'', ''abc''), (''foo'', ''bar'')]\<rparr>" "start calm"]
  by (simp add: table_defs volume_of_def)

subsection \<open>strconv.ParseInt reads decimal numerals\<close>

lemma foldl_digits_ge: "n \<le> foldl (\<lambda>n c. n * 10 + digitVal c) n ds"
proof (induction ds arbitrary: n)
  case Nil
  then show ?case by simp
next
  case (Cons c cs)
  have "n \<le> n * 10 + digitVal c" by simp
  also have "\<dots> \<le> foldl (\<lambda>n c. n * 10 + digitVal c) (n * 10 + digitVal c) cs"
    by (rule Cons.IH)
  finally show ?case by simp
qed

lemma ParseUint_loop_Inr:
  "ParseUint_loop n ds = Inr m \<Longrightarrow> n \<le> maxUint64 \<Longrightarrow>
   list_all isDigit ds \<and> m = foldl (\<lambda>n c. n * 10 + digitVal c) n ds \<and> m \<le> maxUint64"
  by (induction n ds rule: ParseUint_loop.induct) (auto split: if_splits)

lemma ParseUint_loop_digits:
  "list_all isDigit ds \<Longrightarrow> foldl (\<lambda>n c. n * 10 + digitVal c) n ds \<le> maxUint64 \<Longrightarrow>
   ParseUint_loop n ds = Inr (foldl (\<lambda>n c. n * 10 + digitVal c) n ds)"
proof (induction ds arbitrary: n)
  case Nil
  then show ?case by simp
next
  case (Cons c cs)
  have "n * 10 + digitVal c \<le> foldl (\<lambda>n c. n * 10 + digitVal c) (n * 10 + digitVal c) cs"
    by (rule foldl_digits_ge)
  with Cons.prems(2) have le: "n * 10 + digitVal c \<le> maxUint64" by simp
  then have "n * 10 \<le> maxUint64" by simp
  then have "n < maxUint64 div 10 + 1" by (simp add: maxUint64_def)
  with le Cons show ?case by simp
qed

lemma ParseUint_iff:
  "ParseUint ds = Inr m \<longleftrightarrow>
     ds \<noteq> [] \<and> list_all isDigit ds \<and> decimal ds \<le> maxUint64 \<and> m = decimal ds"
proof
  assume p: "ParseUint ds = Inr m"
  then have ne: "ds \<noteq> []" by (auto simp: ParseUint_def split: if_splits)
  with p have "ParseUint_loop 0 ds = Inr m" by (simp add: ParseUint_def)
  from ParseUint_loop_Inr [OF this] ne
  show "ds \<noteq> [] \<and> list_all isDigit ds \<and> decimal ds \<le> maxUint64 \<and> m = decimal ds"
    by (simp add: decimal_def)
next
  assume "ds \<noteq> [] \<and> list_all isDigit ds \<and> decimal ds \<le> maxUint64 \<and> m = decimal ds"
  then show "ParseUint ds = Inr m"
    using ParseUint_loop_digits [of ds 0] by (simp add: ParseUint_def decimal_def)
qed

lemma sint_in_range:
  "- (2 ^ 63) \<le> k \<Longrightarrow> k < 2 ^ 63 \<Longrightarrow> sint (word_of_int k :: 64 word) = k"
  by (simp add: sint_sbintrunc' signed_take_bit_int_eq_self_iff)

lemma sint_word_of_nat: "un < 2 ^ 63 \<Longrightarrow> sint (word_of_nat un :: 64 word) = int un"
  using sint_in_range [of "int un"] by simp

lemma sint_neg_word_of_nat:
  "un \<le> 2 ^ 63 \<Longrightarrow> sint (- (word_of_nat un) :: 64 word) = - int un"
  using sint_in_range [of "- int un"] by simp

lemma ParseInt_unsigned:
  assumes "neg = (c = CHR ''-'')" and "ds = (if c = CHR ''+'' \<or> c = CHR ''-'' then cs else c # cs)"
  shows "ParseInt (c # cs) = Inr n \<longleftrightarrow>
     ds \<noteq> [] \<and> list_all isDigit ds \<and>
     (if neg then decimal ds \<le> 2 ^ 63 \<and> n = - word_of_nat (decimal ds)
      else decimal ds < 2 ^ 63 \<and> n = word_of_nat (decimal ds))"
proof -
  have unfold: "ParseInt (c # cs) =
      (case ParseUint ds of
         Inl ErrSyntax \<Rightarrow> Inl (NumError (c # cs) ErrSyntax)
       | Inl ErrRange \<Rightarrow> Inl (NumError (c # cs) ErrRange)
       | Inr un \<Rightarrow>
           if \<not> neg \<and> un \<ge> 2 ^ 63 then Inl (NumError (c # cs) ErrRange)
           else if neg \<and> un > 2 ^ 63 then Inl (NumError (c # cs) ErrRange)
           else Inr (if neg then - (word_of_nat un) else word_of_nat un))"
    using assms by (auto simp: ParseInt_def split: sum.splits numErr.splits)
  show ?thesis
  proof (cases "ParseUint ds")
    case (Inl e)
    then have "\<not> (ds \<noteq> [] \<and> list_all isDigit ds \<and> decimal ds \<le> maxUint64)"
      using ParseUint_iff [of ds "decimal ds"] by auto
    then have "\<not> (ds \<noteq> [] \<and> list_all isDigit ds \<and> decimal ds \<le> 2 ^ 63)"
      by (auto simp: maxUint64_def)
    moreover from Inl have "ParseInt (c # cs) \<noteq> Inr n"
      unfolding unfold by (cases e) simp_all
    ultimately show ?thesis by (auto split: if_splits)
  next
    case (Inr un)
    then have "ds \<noteq> []" "list_all isDigit ds" "un = decimal ds"
      using ParseUint_iff [of ds un] by auto
    with Inr show ?thesis
      unfolding unfold by auto
  qed
qed

lemma ParseInt_iff:
  "ParseInt s = Inr n \<longleftrightarrow>
     is_base10_integer s \<and> - (2 ^ 63) \<le> int_value s \<and> int_value s < 2 ^ 63 \<and>
     sint n = int_value s"
proof (cases s)
  case Nil
  then show ?thesis by (simp add: ParseInt_def is_base10_integer_def)
next
  case (Cons c cs)
  define ds where "ds = (if c = CHR ''+'' \<or> c = CHR ''-'' then cs else c # cs)"
  have b10: "is_base10_integer s \<longleftrightarrow> ds \<noteq> [] \<and> list_all isDigit ds"
    by (simp add: Cons is_base10_integer_def ds_def Let_def)
  have iv: "int_value s = (if c = CHR ''-'' then - int (decimal ds) else int (decimal ds))"
    by (simp add: Cons int_value_def ds_def)
  note p = ParseInt_unsigned [OF refl ds_def, of n, folded Cons]
  show ?thesis
  proof (cases "c = CHR ''-''")
    case True
    have inj: "sint n = - int (decimal ds) \<longleftrightarrow> n = - word_of_nat (decimal ds)"
      if "decimal ds \<le> 2 ^ 63"
    proof
      assume "sint n = - int (decimal ds)"
      then have "sint n = sint (- word_of_nat (decimal ds) :: 64 word)"
        using that by (simp add: sint_neg_word_of_nat)
      then show "n = - word_of_nat (decimal ds)" by (rule signed_word_eqI [where ?'a = int])
    next
      assume "n = - word_of_nat (decimal ds)"
      then show "sint n = - int (decimal ds)" using that by (simp add: sint_neg_word_of_nat)
    qed
    from True show ?thesis
      unfolding p b10 iv using inj by auto
  next
    case False
    have inj: "sint n = int (decimal ds) \<longleftrightarrow> n = word_of_nat (decimal ds)"
      if "decimal ds < 2 ^ 63"
    proof
      assume "sint n = int (decimal ds)"
      then have "sint n = sint (word_of_nat (decimal ds) :: 64 word)"
        using that by (simp add: sint_word_of_nat)
      then show "n = word_of_nat (decimal ds)" by (rule signed_word_eqI [where ?'a = int])
    next
      assume "n = word_of_nat (decimal ds)"
      then show "sint n = int (decimal ds)" using that by (simp add: sint_word_of_nat)
    qed
    from False show ?thesis
      unfolding p b10 iv using inj by auto
  qed
qed

lemma ParseInt_not_base10:
  "\<not> is_base10_integer s \<Longrightarrow> \<exists>ne. ParseInt s = Inl (NumError s ne)"
proof -
  assume "\<not> is_base10_integer s"
  then have "\<And>n. ParseInt s \<noteq> Inr n" by (simp add: ParseInt_iff)
  then obtain e where e: "ParseInt s = Inl e" by (cases "ParseInt s") auto
  with ParseInt_error_shape [OF e] show ?thesis by auto
qed

subsection \<open>The fields that the loop over the options sets\<close>

lemma loop_bad_SizeGb_fails:
  "(''SizeGb'', val) \<in> set opts \<Longrightarrow> ParseInt val = Inl err \<Longrightarrow>
   \<exists>e. createDiskConfig_loop c opts = Inl e"
proof (induction opts arbitrary: c)
  case Nil
  then show ?case by simp
next
  case (Cons kv opts)
  obtain k w where kv: "kv = (k, w)" by (cases kv)
  show ?case
  proof (cases "kv = (''SizeGb'', val)")
    case True
    with kv have "k = ''SizeGb''" and "w = val" by simp_all
    with Cons.prems(2) kv show ?thesis by simp
  next
    case False
    with Cons.prems have "(''SizeGb'', val) \<in> set opts" by simp
    from Cons.IH [OF this Cons.prems(2)] show ?thesis
      unfolding kv by (simp split: sum.splits)
  qed
qed

lemma loop_Name:
  "createDiskConfig_loop c opts = Inr c' \<Longrightarrow> distinct (map fst opts) \<Longrightarrow>
   dc_Name c' = (case map_of opts ''Name'' of Some val \<Rightarrow> val | None \<Rightarrow> dc_Name c)"
proof (induction c opts rule: createDiskConfig_loop.induct)
  case (1 config)
  then show ?case by simp
next
  case (2 config key val rest)
  from "2.prems"(2) have d: "distinct (map fst rest)" and k: "key \<notin> fst ` set rest"
    by simp_all
  from k have none: "map_of rest key = None" by (simp add: map_of_eq_None_iff)
  from "2.prems"(1) "2.IH" d none show ?case
    by (auto split: if_splits sum.splits option.splits)
qed

lemma loop_SizeGb_kept:
  "createDiskConfig_loop c opts = Inr c' \<Longrightarrow> ''SizeGb'' \<notin> fst ` set opts \<Longrightarrow>
   dc_SizeGb c' = dc_SizeGb c"
  by (induction c opts rule: createDiskConfig_loop.induct)
     (auto split: if_splits sum.splits)

lemma loop_SizeGb:
  "createDiskConfig_loop c opts = Inr c' \<Longrightarrow> distinct (map fst opts) \<Longrightarrow>
   (''SizeGb'', num) \<in> set opts \<Longrightarrow> ParseInt num = Inr (dc_SizeGb c')"
proof (induction c opts rule: createDiskConfig_loop.induct)
  case (1 config)
  then show ?case by simp
next
  case (2 config key val rest)
  from "2.prems"(2) have d: "distinct (map fst rest)" and k: "key \<notin> fst ` set rest"
    by simp_all
  show ?case
  proof (cases "(''SizeGb'', num) \<in> set rest")
    case True
    then have "key \<noteq> ''SizeGb''" using k by force
    with "2.prems"(1) "2.IH" d True show ?thesis
      by (auto split: if_splits sum.splits)
  next
    case False
    with "2.prems"(3) have key: "key = ''SizeGb''" and val: "val = num" by simp_all
    from "2.prems"(1) key obtain n where n: "ParseInt val = Inr n"
      and rest: "createDiskConfig_loop (config\<lparr>dc_SizeGb := n\<rparr>) rest = Inr c'"
      by (auto split: sum.splits)
    from loop_SizeGb_kept [OF rest] k key have "dc_SizeGb c' = n" by simp
    with n val show ?thesis by simp
  qed
qed

lemma createDiskConfig_bad_SizeGb:
  assumes "(''SizeGb'', num) \<in> set (Options r)" and "\<not> is_base10_integer num"
  shows "\<exists>e. createDiskConfig L r = Inl e \<and> config_error (Options r) e"
proof -
  from ParseInt_not_base10 [OF assms(2)] obtain ne
    where "ParseInt num = Inl (NumError num ne)" by blast
  from loop_bad_SizeGb_fails [OF assms(1) this] obtain e
    where e: "createDiskConfig_loop (DiskConfig_named (req_Name r)) (Options r) = Inl e"
    by blast
  then have "config_error (Options r) e" by (rule loop_Inl_config_error)
  with e show ?thesis by (simp add: createDiskConfig_def)
qed

lemma createDiskConfig_Inr_loop:
  "createDiskConfig L r = Inr c \<Longrightarrow>
   createDiskConfig_loop (DiskConfig_named (req_Name r)) (Options r) = Inr c \<and>
   Validate L c = None"
  by (auto simp: createDiskConfig_def split: sum.splits option.splits)

subsection \<open>The order of the options does not decide the configuration\<close>

text \<open>
  A derivation that succeeds when the options are visited in one order succeeds in
  every other order, with the same configuration: the order decides only which error a
  failing derivation returns.
\<close>

lemma loop_Type:
  "createDiskConfig_loop c opts = Inr c' \<Longrightarrow> distinct (map fst opts) \<Longrightarrow>
   dc_Type c' = (case map_of opts ''Type'' of Some val \<Rightarrow> val | None \<Rightarrow> dc_Type c)"
proof (induction c opts rule: createDiskConfig_loop.induct)
  case (1 config)
  then show ?case by simp
next
  case (2 config key val rest)
  from "2.prems"(2) have d: "distinct (map fst rest)" and k: "key \<notin> fst ` set rest"
    by simp_all
  from k have none: "map_of rest key = None" by (simp add: map_of_eq_None_iff)
  from "2.prems"(1) "2.IH" d none show ?case
    by (auto split: if_splits sum.splits option.splits)
qed

lemma loop_SourceSnapshot:
  "createDiskConfig_loop c opts = Inr c' \<Longrightarrow> distinct (map fst opts) \<Longrightarrow>
   dc_SourceSnapshot c' =
     (case map_of opts ''SourceSnapshot'' of Some val \<Rightarrow> val | None \<Rightarrow> dc_SourceSnapshot c)"
proof (induction c opts rule: createDiskConfig_loop.induct)
  case (1 config)
  then show ?case by simp
next
  case (2 config key val rest)
  from "2.prems"(2) have d: "distinct (map fst rest)" and k: "key \<notin> fst ` set rest"
    by simp_all
  from k have none: "map_of rest key = None" by (simp add: map_of_eq_None_iff)
  from "2.prems"(1) "2.IH" d none show ?case
    by (auto split: if_splits sum.splits option.splits)
qed

lemma loop_SourceImage:
  "createDiskConfig_loop c opts = Inr c' \<Longrightarrow> distinct (map fst opts) \<Longrightarrow>
   dc_SourceImage c' =
     (case map_of opts ''SourceImage'' of Some val \<Rightarrow> val | None \<Rightarrow> dc_SourceImage c)"
proof (induction c opts rule: createDiskConfig_loop.induct)
  case (1 config)
  then show ?case by simp
next
  case (2 config key val rest)
  from "2.prems"(2) have d: "distinct (map fst rest)" and k: "key \<notin> fst ` set rest"
    by simp_all
  from k have none: "map_of rest key = None" by (simp add: map_of_eq_None_iff)
  from "2.prems"(1) "2.IH" d none show ?case
    by (auto split: if_splits sum.splits option.splits)
qed

lemma loop_Inr_entries:
  "createDiskConfig_loop c opts = Inr c' \<Longrightarrow> (key, val) \<in> set opts \<Longrightarrow>
   known_option key \<and> (key = ''SizeGb'' \<longrightarrow> (\<exists>n. ParseInt val = Inr n))"
proof (induction c opts rule: createDiskConfig_loop.induct)
  case (1 config)
  then show ?case by simp
next
  case (2 config k w rest)
  show ?case
  proof (cases "(key, val) = (k, w)")
    case True
    then have "key = k" and "val = w" by simp_all
    with "2.prems"(1) show ?thesis
      by (cases "ParseInt w") (simp_all add: known_option_def split: if_splits)
  next
    case False
    with "2.prems"(2) have "(key, val) \<in> set rest" by auto
    with "2.prems"(1) "2.IH" show ?thesis
      by (simp split: if_splits sum.splits)
  qed
qed

lemma loop_entries_Inr:
  "\<forall>(key, val) \<in> set opts.
      known_option key \<and> (key = ''SizeGb'' \<longrightarrow> (\<exists>n. ParseInt val = Inr n)) \<Longrightarrow>
   \<exists>c'. createDiskConfig_loop c opts = Inr c'"
proof (induction opts arbitrary: c)
  case Nil
  then show ?case by simp
next
  case (Cons kv opts)
  obtain k w where kv: "kv = (k, w)" by (cases kv)
  from Cons.prems kv have known: "known_option k"
    and size: "k = ''SizeGb'' \<longrightarrow> (\<exists>n. ParseInt w = Inr n)"
    and rest: "\<forall>(key, val) \<in> set opts.
      known_option key \<and> (key = ''SizeGb'' \<longrightarrow> (\<exists>n. ParseInt val = Inr n))"
    by simp_all
  from Cons.IH [OF rest] have ih: "\<And>c. \<exists>c'. createDiskConfig_loop c opts = Inr c'" .
  from known size show ?case
    unfolding kv using ih by (auto simp: known_option_def)
qed

lemma loop_more: "createDiskConfig_loop c opts = Inr c' \<Longrightarrow> DiskConfig.more c' = DiskConfig.more c"
  by (induction c opts rule: createDiskConfig_loop.induct)
     (auto split: if_splits sum.splits)

lemma createDiskConfig_loop_order:
  assumes l: "createDiskConfig_loop c opts = Inr c'"
    and d: "distinct (map fst opts)" and d': "distinct (map fst opts')"
    and eq: "set opts' = set opts"
  shows "createDiskConfig_loop c opts' = Inr c'"
proof -
  from d d' eq have m: "map_of opts' = map_of opts"
    by (simp add: map_of_inject_set)
  have "\<forall>(key, val) \<in> set opts'.
      known_option key \<and> (key = ''SizeGb'' \<longrightarrow> (\<exists>n. ParseInt val = Inr n))"
    using loop_Inr_entries [OF l] eq by auto
  from loop_entries_Inr [OF this] obtain c'' where l': "createDiskConfig_loop c opts' = Inr c''"
    by blast
  have "dc_Name c'' = dc_Name c'"
    using loop_Name [OF l d] loop_Name [OF l' d'] m by simp
  moreover have "dc_Type c'' = dc_Type c'"
    using loop_Type [OF l d] loop_Type [OF l' d'] m by simp
  moreover have "dc_SourceSnapshot c'' = dc_SourceSnapshot c'"
    using loop_SourceSnapshot [OF l d] loop_SourceSnapshot [OF l' d'] m by simp
  moreover have "dc_SourceImage c'' = dc_SourceImage c'"
    using loop_SourceImage [OF l d] loop_SourceImage [OF l' d'] m by simp
  moreover have "dc_SizeGb c'' = dc_SizeGb c'"
  proof (cases "\<exists>num. (''SizeGb'', num) \<in> set opts")
    case True
    then obtain num where n: "(''SizeGb'', num) \<in> set opts" by blast
    with eq have n': "(''SizeGb'', num) \<in> set opts'" by simp
    from loop_SizeGb [OF l d n] loop_SizeGb [OF l' d' n'] show ?thesis by simp
  next
    case False
    then have "''SizeGb'' \<notin> fst ` set opts" by force
    moreover with eq have "''SizeGb'' \<notin> fst ` set opts'" by simp
    ultimately show ?thesis
      using loop_SizeGb_kept [OF l] loop_SizeGb_kept [OF l'] by simp
  qed
  moreover have "DiskConfig.more c'' = DiskConfig.more c'"
    using loop_more [OF l] loop_more [OF l'] by simp
  ultimately have "c'' = c'" by (intro DiskConfig.equality)
  with l' show ?thesis by simp
qed

lemma createDiskConfig_order:
  assumes "createDiskConfig L r = Inr c"
    and "distinct (map fst (Options r))" and "distinct (map fst (Options r'))"
    and "set (Options r') = set (Options r)" and "req_Name r' = req_Name r"
  shows "createDiskConfig L r' = Inr c"
proof -
  from createDiskConfig_Inr_loop [OF assms(1)]
  have l: "createDiskConfig_loop (DiskConfig_named (req_Name r)) (Options r) = Inr c"
    and v: "Validate L c = None" by simp_all
  from createDiskConfig_loop_order [OF l assms(2,3,4)] assms(5) v
  show ?thesis by (simp add: createDiskConfig_def)
qed

subsection \<open>C8: the option SizeGb\<close>

text \<open>
  Claim C8, as amended. The claim has the derivation fail before any call is made; in
  \<^verbatim>\<open>Get\<close> it fails after the listing of the provider, as evaluated further down. What
  holds: \<^verbatim>\<open>strconv.ParseInt\<close> in base 10 and 64 bits accepts a string exactly when it
  is a decimal numeral, an optional sign and at least one digit, whose value lies
  between \<open>- 2 ^ 63\<close> and \<open>2 ^ 63 - 1\<close>, and then returns that value. In a configuration
  derived from a request that gives \<^verbatim>\<open>SizeGb\<close>, the field \<^verbatim>\<open>SizeGb\<close> is the value of the
  numeral given. If the value given for \<^verbatim>\<open>SizeGb\<close> is not a decimal numeral, the
  derivation fails, in whatever order the options are visited, with a configuration
  error. Each of \<^verbatim>\<open>Create\<close>, \<^verbatim>\<open>Remove\<close>, \<^verbatim>\<open>Path\<close>, \<^verbatim>\<open>Mount\<close> and \<^verbatim>\<open>Unmount\<close> then
  returns the response of that error and leaves the state as it was: no call is made.
  \<^verbatim>\<open>Get\<close> lists the disks of the provider first, and returns the response of that error
  when the listing succeeds and holds a disk with the name of the request, after that
  one call. For the request with the name \<^verbatim>\<open>data1\<close> and the one option \<^verbatim>\<open>SizeGb\<close> =
  \<^verbatim>\<open>10\<close>, provided \<^verbatim>\<open>Validate\<close> accepts the configuration, \<^verbatim>\<open>Create\<close> makes the one call
  \<^verbatim>\<open>Create\<close> of the provider with the configuration whose name is \<^verbatim>\<open>data1\<close> and whose
  size is 10, and returns the empty response when that call succeeds.
\<close>

theorem SizeGb_base10:
  "((ParseInt num = Inr n) =
      (is_base10_integer num \<and> - (2 ^ 63) \<le> int_value num \<and> int_value num < 2 ^ 63 \<and>
       sint n = int_value num)) \<and>
   (\<forall>c. createDiskConfig L r = Inr c \<and> distinct (map fst (Options r)) \<and>
        (''SizeGb'', num) \<in> set (Options r) \<longrightarrow>
        is_base10_integer num \<and> sint (dc_SizeGb c) = int_value num) \<and>
   ((''SizeGb'', num) \<in> set (Options r) \<and> \<not> is_base10_integer num \<longrightarrow>
      (\<exists>e. config_error (Options r) e \<and>
           createDiskConfig L r = Inl e \<and>
           Create L v r s = (error_response L e, s) \<and>
           Remove L v r s = (error_response L e, s) \<and>
           Path L v r s = (error_response L e, s) \<and>
           Mount L v r s = (error_response L e, s) \<and>
           Unmount L v r s = (error_response L e, s) \<and>
           (\<forall>disks w. p_List (p v) (world s) = ((disks, None), w) \<and>
                       req_Name r \<in> disk_Name ` set disks \<longrightarrow>
              Get L v r s =
                (error_response L e, \<lparr>world = w, trace = trace s @ [(PList, None)]\<rparr>)))) \<and>
   (Validate L ((DiskConfig_named ''data1'')\<lparr>dc_SizeGb := 10\<rparr>) = None \<longrightarrow>
      createDiskConfig L \<lparr>req_Name = ''data1'', Options = [(''SizeGb'', ''10'')]\<rparr> =
        Inr ((DiskConfig_named ''data1'')\<lparr>dc_SizeGb := 10\<rparr>) \<and>
      Create L v \<lparr>req_Name = ''data1'', Options = [(''SizeGb'', ''10'')]\<rparr> s =
        (case p_Create (p v) ((DiskConfig_named ''data1'')\<lparr>dc_SizeGb := 10\<rparr>) (world s) of
           (err, w) \<Rightarrow>
             (case err of Some e \<Rightarrow> error_response L e | None \<Rightarrow> Response_zero,
              \<lparr>world = w,
               trace = trace s @
                 [(PCreate ((DiskConfig_named ''data1'')\<lparr>dc_SizeGb := 10\<rparr>), err)]\<rparr>)))"
proof (intro conjI)
  show "(ParseInt num = Inr n) =
      (is_base10_integer num \<and> - (2 ^ 63) \<le> int_value num \<and> int_value num < 2 ^ 63 \<and>
       sint n = int_value num)"
    by (rule ParseInt_iff)
next
  show "\<forall>c. createDiskConfig L r = Inr c \<and> distinct (map fst (Options r)) \<and>
        (''SizeGb'', num) \<in> set (Options r) \<longrightarrow>
        is_base10_integer num \<and> sint (dc_SizeGb c) = int_value num"
  proof (intro allI impI, elim conjE)
    fix c
    assume c: "createDiskConfig L r = Inr c" and d: "distinct (map fst (Options r))"
      and m: "(''SizeGb'', num) \<in> set (Options r)"
    from createDiskConfig_Inr_loop [OF c]
    have "createDiskConfig_loop (DiskConfig_named (req_Name r)) (Options r) = Inr c" ..
    from loop_SizeGb [OF this d m] have "ParseInt num = Inr (dc_SizeGb c)" .
    then show "is_base10_integer num \<and> sint (dc_SizeGb c) = int_value num"
      by (simp add: ParseInt_iff)
  qed
next
  show "(''SizeGb'', num) \<in> set (Options r) \<and> \<not> is_base10_integer num \<longrightarrow>
      (\<exists>e. config_error (Options r) e \<and>
           createDiskConfig L r = Inl e \<and>
           Create L v r s = (error_response L e, s) \<and>
           Remove L v r s = (error_response L e, s) \<and>
           Path L v r s = (error_response L e, s) \<and>
           Mount L v r s = (error_response L e, s) \<and>
           Unmount L v r s = (error_response L e, s) \<and>
           (\<forall>disks w. p_List (p v) (world s) = ((disks, None), w) \<and>
                       req_Name r \<in> disk_Name ` set disks \<longrightarrow>
              Get L v r s =
                (error_response L e, \<lparr>world = w, trace = trace s @ [(PList, None)]\<rparr>)))"
  proof (intro impI, elim conjE)
    assume m: "(''SizeGb'', num) \<in> set (Options r)" and b: "\<not> is_base10_integer num"
    from createDiskConfig_bad_SizeGb [OF m b] obtain e
      where e: "createDiskConfig L r = Inl e" and c: "config_error (Options r) e"
      by blast
    have "Create L v r s = (error_response L e, s)"
      using e by (simp add: Create_def buildReponseError_eq)
    moreover have "Remove L v r s = (error_response L e, s)"
      using e by (simp add: Remove_def buildReponseError_eq)
    moreover have "Path L v r s = (error_response L e, s)"
      using e by (simp add: Path_def buildReponseError_eq)
    moreover have "Mount L v r s = (error_response L e, s)"
      using e by (simp add: Mount_def buildReponseError_eq)
    moreover have "Unmount L v r s = (error_response L e, s)"
      using e by (simp add: Unmount_def buildReponseError_eq)
    moreover have "\<forall>disks w. p_List (p v) (world s) = ((disks, None), w) \<and>
                       req_Name r \<in> disk_Name ` set disks \<longrightarrow>
              Get L v r s =
                (error_response L e, \<lparr>world = w, trace = trace s @ [(PList, None)]\<rparr>)"
      using e by (simp add: Get_def v_p_List_def Get_loop_match_error buildReponseError_eq)
    ultimately show "\<exists>e. config_error (Options r) e \<and>
           createDiskConfig L r = Inl e \<and>
           Create L v r s = (error_response L e, s) \<and>
           Remove L v r s = (error_response L e, s) \<and>
           Path L v r s = (error_response L e, s) \<and>
           Mount L v r s = (error_response L e, s) \<and>
           Unmount L v r s = (error_response L e, s) \<and>
           (\<forall>disks w. p_List (p v) (world s) = ((disks, None), w) \<and>
                       req_Name r \<in> disk_Name ` set disks \<longrightarrow>
              Get L v r s =
                (error_response L e, \<lparr>world = w, trace = trace s @ [(PList, None)]\<rparr>))"
      using e c by blast
  qed
next
  have p: "ParseInt ''10'' = Inr 10"
    by (simp add: ParseInt_def ParseUint_def isDigit_def digitVal_def maxUint64_def)
  show "Validate L ((DiskConfig_named ''data1'')\<lparr>dc_SizeGb := 10\<rparr>) = None \<longrightarrow>
      createDiskConfig L \<lparr>req_Name = ''data1'', Options = [(''SizeGb'', ''10'')]\<rparr> =
        Inr ((DiskConfig_named ''data1'')\<lparr>dc_SizeGb := 10\<rparr>) \<and>
      Create L v \<lparr>req_Name = ''data1'', Options = [(''SizeGb'', ''10'')]\<rparr> s =
        (case p_Create (p v) ((DiskConfig_named ''data1'')\<lparr>dc_SizeGb := 10\<rparr>) (world s) of
           (err, w) \<Rightarrow>
             (case err of Some e \<Rightarrow> error_response L e | None \<Rightarrow> Response_zero,
              \<lparr>world = w,
               trace = trace s @
                 [(PCreate ((DiskConfig_named ''data1'')\<lparr>dc_SizeGb := 10\<rparr>), err)]\<rparr>))"
    by (simp add: Create_def createDiskConfig_def p v_p_Create_def buildReponseError_eq
        split: prod.splits option.splits)
qed

text \<open>
  The theorem for the value \<^verbatim>\<open>abc\<close>, and the scenario of the request \<^verbatim>\<open>data1\<close> on a
  provider that succeeds.
\<close>

theorem SizeGb_base10_witness:
  "(''SizeGb'', ''abc'') \<in> set (Options \<lparr>req_Name = ''data1'', Options = [(''SizeGb'', ''abc'')]\<rparr>) \<and>
   \<not> is_base10_integer ''abc'' \<and>
   Create plain_Deps table_Volume \<lparr>req_Name = ''data1'', Options = [(''SizeGb'', ''abc'')]\<rparr>
     (start calm) =
     (error_response plain_Deps (NumError ''abc'' ErrSyntax), start calm) \<and>
   Validate plain_Deps ((DiskConfig_named ''data1'')\<lparr>dc_SizeGb := 10\<rparr>) = None \<and>
   Create plain_Deps table_Volume \<lparr>req_Name = ''data1'', Options = [(''SizeGb'', ''10'')]\<rparr>
     (start calm) =
     (Response_zero,
      \<lparr>world = calm,
       trace = [(PCreate \<lparr>dc_Name = ''data1'', dc_Type = [], dc_SizeGb = 10,
                           dc_SourceSnapshot = [], dc_SourceImage = []\<rparr>, None)]\<rparr>)"
proof -
  have h1: "(''SizeGb'', ''abc'') \<in> set (Options \<lparr>req_Name = ''data1'', Options = [(''SizeGb'', ''abc'')]\<rparr>)"
    by simp
  have h2: "\<not> is_base10_integer ''abc''"
    by (simp add: is_base10_integer_def isDigit_def)
  have h3: "Create plain_Deps table_Volume \<lparr>req_Name = ''data1'', Options = [(''SizeGb'', ''abc'')]\<rparr>
     (start calm) =
     (error_response plain_Deps (NumError ''abc'' ErrSyntax), start calm)"
    by (simp add: Create_def config_defs buildReponseError_eq)
  have h4: "Validate plain_Deps ((DiskConfig_named ''data1'')\<lparr>dc_SizeGb := 10\<rparr>) = None"
    by (simp add: plain_Deps_def DiskConfig_named_def)
  have h5: "Create plain_Deps table_Volume \<lparr>req_Name = ''data1'', Options = [(''SizeGb'', ''10'')]\<rparr>
     (start calm) =
     (Response_zero,
      \<lparr>world = calm,
       trace = [(PCreate \<lparr>dc_Name = ''data1'', dc_Type = [], dc_SizeGb = 10,
                           dc_SourceSnapshot = [], dc_SourceImage = []\<rparr>, None)]\<rparr>)"
    using SizeGb_base10 [of "''10''" 10 plain_Deps
        "\<lparr>req_Name = ''data1'', Options = [(''SizeGb'', ''10'')]\<rparr>" table_Volume "start calm"] h4
    by (simp add: table_provider_def table_Volume_def start_def DiskConfig_named_def)
  from h1 h2 h3 h4 h5 show ?thesis by (intro conjI) assumption+
qed

text \<open>
  Where C8 as stated fails: the name \<^verbatim>\<open>A\<close> is listed, the value \<^verbatim>\<open>abc\<close> of \<^verbatim>\<open>SizeGb\<close> is
  no decimal numeral, and \<^verbatim>\<open>Get\<close> returns the parse error after it has called \<^verbatim>\<open>List\<close>
  of the provider.
\<close>

theorem SizeGb_base10_counterexample:
  "\<not> is_base10_integer ''abc'' \<and>
   createDiskConfig plain_Deps \<lparr>req_Name = ''A'', Options = [(''SizeGb'', ''abc'')]\<rparr> =
     Inl (NumError ''abc'' ErrSyntax) \<and>
   Get plain_Deps table_Volume \<lparr>req_Name = ''A'', Options = [(''SizeGb'', ''abc'')]\<rparr>
     (start calm) =
     (error_response plain_Deps (NumError ''abc'' ErrSyntax),
      \<lparr>world = calm, trace = [(PList, None)]\<rparr>) \<and>
   trace (snd (Get plain_Deps table_Volume
     \<lparr>req_Name = ''A'', Options = [(''SizeGb'', ''abc'')]\<rparr> (start calm))) \<noteq>
     trace (start calm)"
  by (simp add: is_base10_integer_def Get_def call_defs table_defs config_defs
      buildReponseError_eq error_response_def)

subsection \<open>C9: the name of the derived configuration\<close>

text \<open>
  Claim C9. In a configuration derived from a request, whose options have pairwise
  distinct keys as the entries of a map do, the name is the value of the option \<^verbatim>\<open>Name\<close>
  when the request has that option, and the name of the request otherwise. The name is
  not empty, provided \<^verbatim>\<open>Validate\<close> rejects a configuration with an empty name, which is
  what the specification says of this method.
\<close>

theorem derived_Name:
  assumes "createDiskConfig L r = Inr c" and "distinct (map fst (Options r))"
  shows "dc_Name c =
           (case map_of (Options r) ''Name'' of Some val \<Rightarrow> val | None \<Rightarrow> req_Name r) \<and>
         (Validate_requires_Name L \<longrightarrow> dc_Name c \<noteq> [])"
proof -
  from createDiskConfig_Inr_loop [OF assms(1)]
  have l: "createDiskConfig_loop (DiskConfig_named (req_Name r)) (Options r) = Inr c"
    and v: "Validate L c = None" by simp_all
  from loop_Name [OF l assms(2)]
  have "dc_Name c =
           (case map_of (Options r) ''Name'' of Some val \<Rightarrow> val | None \<Rightarrow> req_Name r)"
    by (simp add: DiskConfig_named_def split: option.splits)
  moreover from v have "Validate_requires_Name L \<longrightarrow> dc_Name c \<noteq> []"
    by (auto simp: Validate_requires_Name_def)
  ultimately show ?thesis by simp
qed

text \<open>
  The theorem for a request that renames the disk; a request without the option keeps
  its own name, and an empty \<^verbatim>\<open>Name\<close> is rejected by the validation.
\<close>

theorem derived_Name_witness:
  "createDiskConfig plain_Deps \<lparr>req_Name = ''vol'', Options = [(''Type'', ''ssd''), (''Name'', ''disk7'')]\<rparr> =
     Inr ((DiskConfig_named ''disk7'')\<lparr>dc_Type := ''ssd''\<rparr>) \<and>
   distinct (map fst (Options \<lparr>req_Name = ''vol'', Options = [(''Type'', ''ssd''), (''Name'', ''disk7'')]\<rparr>)) \<and>
   Validate_requires_Name plain_Deps \<and>
   dc_Name ((DiskConfig_named ''disk7'')\<lparr>dc_Type := ''ssd''\<rparr>) = ''disk7'' \<and>
   createDiskConfig plain_Deps \<lparr>req_Name = ''vol'', Options = [(''Type'', ''ssd'')]\<rparr> =
     Inr ((DiskConfig_named ''vol'')\<lparr>dc_Type := ''ssd''\<rparr>) \<and>
   createDiskConfig plain_Deps \<lparr>req_Name = ''vol'', Options = [(''Name'', [])]\<rparr> =
     Inl (Foreign False ''missing name'')"
proof -
  have h1: "createDiskConfig plain_Deps \<lparr>req_Name = ''vol'', Options = [(''Type'', ''ssd''), (''Name'', ''disk7'')]\<rparr> =
     Inr ((DiskConfig_named ''disk7'')\<lparr>dc_Type := ''ssd''\<rparr>)"
    by (simp add: config_defs plain_Deps_def)
  have h2: "distinct (map fst (Options \<lparr>req_Name = ''vol'', Options = [(''Type'', ''ssd''), (''Name'', ''disk7'')]\<rparr>))"
    by simp
  have h3: "Validate_requires_Name plain_Deps"
    by (simp add: Validate_requires_Name_def plain_Deps_def)
  have h4: "dc_Name ((DiskConfig_named ''disk7'')\<lparr>dc_Type := ''ssd''\<rparr>) = ''disk7''"
    using derived_Name [OF h1 h2] by simp
  have h5: "createDiskConfig plain_Deps \<lparr>req_Name = ''vol'', Options = [(''Type'', ''ssd'')]\<rparr> =
     Inr ((DiskConfig_named ''vol'')\<lparr>dc_Type := ''ssd''\<rparr>)"
    by (simp add: config_defs plain_Deps_def)
  have h6: "createDiskConfig plain_Deps \<lparr>req_Name = ''vol'', Options = [(''Name'', [])]\<rparr> =
     Inl (Foreign False ''missing name'')"
    by (simp add: config_defs plain_Deps_def)
  from h1 h2 h3 h4 h5 h6 show ?thesis by (intro conjI) assumption+
qed

end
